theory Spec2Isabelle
  imports Main "HOL-Library.AList"
begin

section \<open>Data model\<close>

text \<open>
  The cleaner works on Go values of static type \<open>interface{}\<close>, as the YAML decoder produces
  them and as the code itself builds them.  A \<open>map[string]interface{}\<close> is an association
  list of its entries (a Go map holds each key once; \<open>m[k]\<close> is \<open>map_of\<close>, \<open>delete(m, k)\<close> is
  \<open>AList.delete\<close>, \<open>m[k] = v\<close> is \<open>AList.update\<close>, \<open>len(m) == 0\<close> is \<open>m = []\<close>).  The decoder
  (yaml.v2) yields the mappings nested below a top-level field as
  \<open>map[interface{}]interface{}\<close>, whose keys are scalars; this is \<open>VMapI\<close>.  A type assertion
  of the source is a case distinction on the constructor: \<open>x.(map[string]interface{})\<close>
  succeeds on \<open>VMapS\<close> only, \<open>x.([]interface{})\<close> on \<open>VSlice\<close>, \<open>x.(string)\<close> on \<open>VStr\<close>.
  \<open>VInt\<close> stands for every integer type.  A \<open>float64\<close> scalar is never inspected by the code
  and is carried as an uninterpreted integer payload.  A nil \<open>map[string]interface{}\<close> stored
  in an interface value is represented by \<open>VMapS []\<close>, and a nil slice by \<open>VSlice []\<close>: the
  code only reads, ranges over, deletes from and takes the length of such a value, and the
  pruner maps both the nil and the empty container to nil.  Documents are trees: no map or
  slice is reachable along two paths, so mutation in place is rebuilding along one path.
\<close>

datatype mkey = KStr string | KInt int | KBool bool | KFloat int | KNil

datatype val =
    VNil
  | VStr string
  | VInt int
  | VBool bool
  | VFloat int
  | VSlice "val list"
  | VMapS "(string \<times> val) list"
  | VMapI "(mkey \<times> val) list"

type_synonym smap = "(string \<times> val) list"

section \<open>Structural pruner\<close>

text \<open>
  \<open>removeEmptyFields\<close>: the three loops of the source (over a \<open>map[string]interface{}\<close>, over
  a \<open>map[interface{}]interface{}\<close>, over a \<open>[]interface{}\<close>) are the three auxiliary
  functions.  The function never writes to its argument; it builds \<open>cleanedMap\<close> and
  \<open>cleanedSlice\<close> afresh and returns them.
\<close>

fun removeEmptyFields :: "val \<Rightarrow> val"
  and cleanedMapS :: "(string \<times> val) list \<Rightarrow> smap"
  and cleanedMapI :: "(mkey \<times> val) list \<Rightarrow> smap"
  and cleanedSlice :: "val list \<Rightarrow> val list"
where
  "removeEmptyFields VNil = VNil"
| "removeEmptyFields (VMapS kvs) =
     (let cleanedMap = cleanedMapS kvs in
      if cleanedMap = [] then VNil else VMapS cleanedMap)"
| "removeEmptyFields (VMapI kvs) =
     (let cleanedMap = cleanedMapI kvs in
      if cleanedMap = [] then VNil else VMapS cleanedMap)"
| "removeEmptyFields (VSlice xs) =
     (if xs = [] then VNil
      else (let cleaned = cleanedSlice xs in
            if cleaned = [] then VNil else VSlice cleaned))"
| "removeEmptyFields (VStr s) = VStr s"
| "removeEmptyFields (VInt i) = VInt i"
| "removeEmptyFields (VBool b) = VBool b"
| "removeEmptyFields (VFloat f) = VFloat f"
| "cleanedMapS [] = []"
| "cleanedMapS ((k, v) # kvs) =
     (let cleanedValue = removeEmptyFields v in
      if cleanedValue \<noteq> VNil then (k, cleanedValue) # cleanedMapS kvs
      else if v = VStr [] then (k, VStr []) # cleanedMapS kvs
      else cleanedMapS kvs)"
| "cleanedMapI [] = []"
| "cleanedMapI ((KStr k, v) # kvs) =
     (let cleanedValue = removeEmptyFields v in
      if cleanedValue \<noteq> VNil then (k, cleanedValue) # cleanedMapI kvs
      else if v = VStr [] then (k, VStr []) # cleanedMapI kvs
      else cleanedMapI kvs)"
| "cleanedMapI ((KInt i, v) # kvs) = cleanedMapI kvs"
| "cleanedMapI ((KBool b, v) # kvs) = cleanedMapI kvs"
| "cleanedMapI ((KFloat f, v) # kvs) = cleanedMapI kvs"
| "cleanedMapI ((KNil, v) # kvs) = cleanedMapI kvs"
| "cleanedSlice [] = []"
| "cleanedSlice (item # items) =
     (let cleanedItem = removeEmptyFields item in
      if cleanedItem \<noteq> VNil then cleanedItem # cleanedSlice items
      else cleanedSlice items)"

text \<open>
  One of the five blocks of \<open>cleanupEmptyTopLevelFields\<close>: prune a top-level map; nil
  stays nil, a nil result clears the field, and a result of another type keeps the field.
\<close>

definition pruneTop :: "smap option \<Rightarrow> smap option" where
  "pruneTop field =
     (case field of
        None \<Rightarrow> None
      | Some m \<Rightarrow>
          (case removeEmptyFields (VMapS m) of
             VNil \<Rightarrow> None
           | VMapS cleaned \<Rightarrow> Some cleaned
           | _ \<Rightarrow> Some m))"

section \<open>String helpers of the Go standard library\<close>

fun strings_HasPrefix :: "string \<Rightarrow> string \<Rightarrow> bool" where
  "strings_HasPrefix s [] = True"
| "strings_HasPrefix [] (p # ps) = False"
| "strings_HasPrefix (c # cs) (p # ps) = (c = p \<and> strings_HasPrefix cs ps)"

definition strings_HasSuffix :: "string \<Rightarrow> string \<Rightarrow> bool" where
  "strings_HasSuffix s suffix = strings_HasPrefix (rev s) (rev suffix)"

definition strings_TrimSuffix :: "string \<Rightarrow> string \<Rightarrow> string" where
  "strings_TrimSuffix s suffix =
     (if strings_HasSuffix s suffix then take (length s - length suffix) s else s)"

text \<open>\<open>strings.LastIndex\<close>: the index of the last occurrence, \<open>None\<close> for Go's \<open>-1\<close>.\<close>

fun strings_LastIndex :: "string \<Rightarrow> string \<Rightarrow> nat option" where
  "strings_LastIndex [] substr = (if substr = [] then Some 0 else None)"
| "strings_LastIndex (c # cs) substr =
     (case strings_LastIndex cs substr of
        Some i \<Rightarrow> Some (Suc i)
      | None \<Rightarrow> if strings_HasPrefix (c # cs) substr then Some 0 else None)"

text \<open>\<open>strings.Split(s, ".")\<close>: always at least one part.\<close>

fun strings_Split_dot :: "string \<Rightarrow> string list" where
  "strings_Split_dot [] = [[]]"
| "strings_Split_dot (c # cs) =
     (if c = CHR ''.'' then [] # strings_Split_dot cs
      else (case strings_Split_dot cs of
              [] \<Rightarrow> [[c]]
            | part # parts \<Rightarrow> (c # part) # parts))"

text \<open>
  \<open>strings.ToUpper\<close> on the ASCII letters.  The code only compares the result with
  \<open>"TCP"\<close>, and no character outside \<open>a..z\<close> has \<open>T\<close>, \<open>C\<close> or \<open>P\<close> as its upper case,
  so the comparison agrees with Go's on every string.
\<close>

definition toUpperChar :: "char \<Rightarrow> char" where
  "toUpperChar c =
     (case map_of (zip ''abcdefghijklmnopqrstuvwxyz'' ''ABCDEFGHIJKLMNOPQRSTUVWXYZ'') c of
        Some u \<Rightarrow> u
      | None \<Rightarrow> c)"

definition strings_ToUpper :: "string \<Rightarrow> string" where
  "strings_ToUpper s = map toUpperChar s"

section \<open>Objects, options and the state table\<close>

record KubernetesObject =
  APIVersion :: string
  Kind :: string
  Metadata :: "smap option"
  Spec :: "smap option"
  Status :: "smap option"
  Data :: "smap option"
  StringData :: "smap option"
  Type :: string

record CleanupOptions =
  RemoveManagedFields :: bool
  RemoveStatus :: bool
  RemoveNamespace :: bool
  RemoveClusterName :: bool
  RemoveLabels :: "string list"
  RemoveAnnotations :: "string list"
  RemoveEmpty :: bool
  CleanupFinalizers :: bool
  RevertToDeployment :: bool
  PreserveResourceState :: bool
  ResourceStateMode :: string

definition resourceStateFields :: "string \<Rightarrow> (string \<times> bool) list option" where
  "resourceStateFields = map_of
     [(''Deployment'',
        [(''metadata.generation'', False),
         (''spec.replicas'', True),
         (''spec.strategy'', True),
         (''spec.template'', True),
         (''status'', False)]),
      (''Service'',
        [(''spec.clusterIP'', False),
         (''spec.clusterIPs'', False),
         (''spec.ports'', True),
         (''spec.selector'', True),
         (''status'', False)]),
      (''Pod'',
        [(''metadata.generation'', False),
         (''spec.containers'', True),
         (''spec.initContainers'', True),
         (''spec.nodeName'', False),
         (''spec.nodeSelector'', True),
         (''spec.volumes'', True),
         (''status'', False)])]"

text \<open>\<open>for _, k := range keys { delete(m, k) }\<close>\<close>

definition deleteKeys :: "string list \<Rightarrow> smap \<Rightarrow> smap" where
  "deleteKeys keys m = fold AList.delete keys m"

section \<open>Path resolver\<close>

text \<open>
  The walk of \<open>removeField\<close> below the selected top-level map.  Go deletes the last key in
  place in the nested map it reached; the functional model rebuilds the maps on the way.
  The argument is \<open>parts[1:]\<close>, which has at least one element when the walk is entered.
\<close>

fun deleteAtPath :: "smap \<Rightarrow> string list \<Rightarrow> smap" where
  "deleteAtPath currentMap [] = currentMap"
| "deleteAtPath currentMap [final] = AList.delete final currentMap"
| "deleteAtPath currentMap (part # p # ps) =
     (case map_of currentMap part of
        Some (VMapS next) \<Rightarrow>
          AList.update part (VMapS (deleteAtPath next (p # ps))) currentMap
      | _ \<Rightarrow> currentMap)"

definition removeField :: "KubernetesObject \<Rightarrow> string \<Rightarrow> KubernetesObject" where
  "removeField obj fieldPath =
     (let parts = strings_Split_dot fieldPath in
      if length parts = 0 then obj
      else if length parts = 1 then
        (if hd parts = ''metadata'' then obj\<lparr>Metadata := None\<rparr>
         else if hd parts = ''spec'' then obj\<lparr>Spec := None\<rparr>
         else if hd parts = ''status'' then obj\<lparr>Status := None\<rparr>
         else if hd parts = ''data'' then obj\<lparr>Data := None\<rparr>
         else if hd parts = ''stringData'' then obj\<lparr>StringData := None\<rparr>
         else if hd parts = ''type'' then obj\<lparr>Type := []\<rparr>
         else obj)
      else if hd parts = ''metadata'' then
        (case Metadata obj of None \<Rightarrow> obj
         | Some currentMap \<Rightarrow> obj\<lparr>Metadata := Some (deleteAtPath currentMap (tl parts))\<rparr>)
      else if hd parts = ''spec'' then
        (case Spec obj of None \<Rightarrow> obj
         | Some currentMap \<Rightarrow> obj\<lparr>Spec := Some (deleteAtPath currentMap (tl parts))\<rparr>)
      else if hd parts = ''status'' then
        (case Status obj of None \<Rightarrow> obj
         | Some currentMap \<Rightarrow> obj\<lparr>Status := Some (deleteAtPath currentMap (tl parts))\<rparr>)
      else if hd parts = ''data'' then
        (case Data obj of None \<Rightarrow> obj
         | Some currentMap \<Rightarrow> obj\<lparr>Data := Some (deleteAtPath currentMap (tl parts))\<rparr>)
      else if hd parts = ''stringData'' then
        (case StringData obj of None \<Rightarrow> obj
         | Some currentMap \<Rightarrow> obj\<lparr>StringData := Some (deleteAtPath currentMap (tl parts))\<rparr>)
      else obj)"

section \<open>Metadata rule set\<close>

definition cleanLabels :: "smap \<Rightarrow> string list \<Rightarrow> smap" where
  "cleanLabels labels removeLabels =
     filter (\<lambda>(key, v). key \<notin> set removeLabels) labels"

definition annotationPrefixesToRemove :: "string list" where
  "annotationPrefixesToRemove =
     [''kubectl.kubernetes.io/'',
      ''deployment.kubernetes.io/'',
      ''apps.kubernetes.io/'',
      ''statefulset.kubernetes.io/'',
      ''service.kubernetes.io/'',
      ''batch.kubernetes.io/'',
      ''networking.k8s.io/'',
      ''rbac.authorization.k8s.io/'',
      ''argocd.argoproj.io/'',
      ''helm.sh/'',
      ''meta.helm.sh/'',
      ''fluxcd.io/'',
      ''kustomize.config.k8s.io/'',
      ''reloader.stakater.com/'']"

definition annotationExactToRemove :: "string list" where
  "annotationExactToRemove =
     [''kubernetes.io/change-cause'',
      ''controller-revision-hash'',
      ''deprecated.daemonset.template.generation'',
      ''pod-template-hash'']"

definition shouldDelete :: "string list \<Rightarrow> string \<Rightarrow> bool" where
  "shouldDelete removeAnnotations key =
     (if key \<in> set annotationExactToRemove then True
      else if list_ex (strings_HasPrefix key) annotationPrefixesToRemove then True
      else key \<in> set removeAnnotations)"

definition cleanAnnotations :: "smap \<Rightarrow> string list \<Rightarrow> smap" where
  "cleanAnnotations annotations removeAnnotations =
     (let keysToDelete = map fst (filter (\<lambda>(key, v). shouldDelete removeAnnotations key) annotations)
      in deleteKeys keysToDelete annotations)"

definition isFlaggedRuntime :: "string \<Rightarrow> string \<Rightarrow> bool" where
  "isFlaggedRuntime kind fieldPath =
     (case resourceStateFields kind of
        None \<Rightarrow> False
      | Some stateFields \<Rightarrow>
          (case map_of stateFields fieldPath of None \<Rightarrow> False | Some isDesired \<Rightarrow> \<not> isDesired))"

definition GenericMetadataCleaner_Clean ::
  "KubernetesObject \<Rightarrow> CleanupOptions \<Rightarrow> KubernetesObject" where
  "GenericMetadataCleaner_Clean obj options =
     (case Metadata obj of
        None \<Rightarrow> obj
      | Some metadata \<Rightarrow>
          (let isGenerationRuntime = isFlaggedRuntime (Kind obj) ''metadata.generation'';
               fieldsToRemove =
                 [''creationTimestamp'', ''resourceVersion'', ''selfLink'', ''uid'',
                  ''ownerReferences'']
                 @ (if \<not> (PreserveResourceState options \<and> ResourceStateMode options = ''Runtime''
                           \<and> isGenerationRuntime)
                    then [''generation''] else [])
                 @ (if RemoveManagedFields options then [''managedFields''] else [])
                 @ (if CleanupFinalizers options then [''finalizers''] else [])
                 @ (if RemoveNamespace options then [''namespace''] else []);
               metadata1 = deleteKeys fieldsToRemove metadata;
               metadata2 =
                 (case map_of metadata1 ''annotations'' of
                    Some (VMapS annotations) \<Rightarrow>
                      (let annotations' = cleanAnnotations annotations (RemoveAnnotations options)
                       in if annotations' = [] then AList.delete ''annotations'' metadata1
                          else AList.update ''annotations'' (VMapS annotations') metadata1)
                  | _ \<Rightarrow> metadata1);
               metadata3 =
                 (case map_of metadata2 ''labels'' of
                    Some (VMapS labels) \<Rightarrow>
                      (let labels' = cleanLabels labels (RemoveLabels options)
                       in if labels' = [] then AList.delete ''labels'' metadata2
                          else AList.update ''labels'' (VMapS labels') metadata2)
                  | _ \<Rightarrow> metadata2)
           in obj\<lparr>Metadata := Some metadata3\<rparr>))"

section \<open>Generic rule set\<close>

definition fieldsToRemoveForState :: "(string \<times> bool) list \<Rightarrow> CleanupOptions \<Rightarrow> string list" where
  "fieldsToRemoveForState stateFields options =
     map fst (filter (\<lambda>(fieldPath, isDesired).
         if ResourceStateMode options = ''Desired'' \<and> \<not> isDesired then True
         else if ResourceStateMode options = ''Runtime'' \<and> isDesired then True
         else False) stateFields)"

text \<open>
  \<open>removeEmptyFields(obj)\<close> with \<open>obj\<close> a \<open>*KubernetesObject\<close>: the value's kind is
  \<open>reflect.Ptr\<close>, its element is a struct, and the recursive call on the struct takes the
  default branch, which returns its argument.  The pruner writes nothing to its argument.
\<close>

definition removeEmptyFields_ptr :: "KubernetesObject \<Rightarrow> KubernetesObject" where
  "removeEmptyFields_ptr obj = obj"

definition GenericObjectCleaner_Clean ::
  "KubernetesObject \<Rightarrow> CleanupOptions \<Rightarrow> KubernetesObject" where
  "GenericObjectCleaner_Clean obj options =
     (let obj1 =
            (if PreserveResourceState options then
               (case resourceStateFields (Kind obj) of
                  Some stateFields \<Rightarrow>
                    fold (\<lambda>fieldPath ob. removeField ob fieldPath)
                      (fieldsToRemoveForState stateFields options) obj
                | None \<Rightarrow> obj)
             else obj);
          obj2 = (if Metadata obj1 \<noteq> None then GenericMetadataCleaner_Clean obj1 options else obj1);
          isStatusRuntime = isFlaggedRuntime (Kind obj2) ''status'';
          obj3 =
            (if RemoveStatus options
                \<and> \<not> (PreserveResourceState options \<and> ResourceStateMode options = ''Runtime''
                      \<and> isStatusRuntime)
             then obj2\<lparr>Status := None\<rparr> else obj2)
      in if RemoveEmpty options
         then (let discarded = removeEmptyFields_ptr obj3 in obj3)
         else obj3)"

definition cleanupEmptyTopLevelFields :: "KubernetesObject \<Rightarrow> KubernetesObject" where
  "cleanupEmptyTopLevelFields obj =
     obj\<lparr>Metadata := pruneTop (Metadata obj),
         Spec := pruneTop (Spec obj),
         Status := pruneTop (Status obj),
         Data := pruneTop (Data obj),
         StringData := pruneTop (StringData obj)\<rparr>"

section \<open>Container, volume and pod-spec rules\<close>

text \<open>The port loop shared by \<open>ServiceCleaner.Clean\<close> and \<open>cleanContainerSpec\<close>.\<close>

definition cleanPort :: "smap \<Rightarrow> smap" where
  "cleanPort portMap =
     (case map_of portMap ''protocol'' of
        Some (VStr protoStr) \<Rightarrow>
          if strings_ToUpper protoStr = ''TCP'' then AList.delete ''protocol'' portMap
          else portMap
      | _ \<Rightarrow> portMap)"

fun cleanedPorts :: "val list \<Rightarrow> val list" where
  "cleanedPorts [] = []"
| "cleanedPorts (p # ports) =
     (case p of
        VMapS portMap \<Rightarrow>
          (let portMap' = cleanPort portMap in
           if portMap' \<noteq> [] then VMapS portMap' # cleanedPorts ports
           else cleanedPorts ports)
      | _ \<Rightarrow> p # cleanedPorts ports)"

definition cleanPortsField :: "smap \<Rightarrow> smap" where
  "cleanPortsField m =
     (case map_of m ''ports'' of
        Some (VSlice ports) \<Rightarrow>
          (let cleaned = cleanedPorts ports in
           if cleaned \<noteq> [] then AList.update ''ports'' (VSlice cleaned) m
           else AList.delete ''ports'' m)
      | _ \<Rightarrow> m)"

definition cleanContainerSpec :: "smap \<Rightarrow> CleanupOptions \<Rightarrow> smap" where
  "cleanContainerSpec container options =
     (let fieldsToRemove =
            [''terminationMessagePath'', ''terminationMessagePolicy'', ''imagePullPolicy'',
             ''tty'', ''stdin'', ''stdinOnce''];
          container1 = deleteKeys fieldsToRemove container
      in cleanPortsField container1)"

definition isServiceAccountTokenSource :: "val \<Rightarrow> bool" where
  "isServiceAccountTokenSource source =
     (case source of
        VMapS sourceMap \<Rightarrow> map_of sourceMap ''serviceAccountToken'' \<noteq> None
      | _ \<Rightarrow> False)"

definition isServiceAccountToken :: "smap \<Rightarrow> bool" where
  "isServiceAccountToken volumeMap =
     (case map_of volumeMap ''projected'' of
        Some (VMapS projected) \<Rightarrow>
          (case map_of projected ''sources'' of
             Some (VSlice sources) \<Rightarrow> list_ex isServiceAccountTokenSource sources
           | _ \<Rightarrow> False)
      | _ \<Rightarrow> False)"

text \<open>
  For one entry of \<open>volumes\<close>: the name the loop body puts into \<open>volumesToRemove\<close>, if any.
  Both marking sites store the volume's own string name and clear \<open>shouldKeep\<close>.
\<close>

definition markedVolumeName :: "val \<Rightarrow> string option" where
  "markedVolumeName volume =
     (case volume of
        VMapS volumeMap \<Rightarrow>
          (case map_of volumeMap ''name'' of
             Some (VStr name) \<Rightarrow>
               if strings_HasPrefix name ''kube-api-access-'' then Some name
               else if isServiceAccountToken volumeMap then Some name
               else None
           | _ \<Rightarrow> None)
      | _ \<Rightarrow> None)"

definition shouldKeep :: "val \<Rightarrow> bool" where
  "shouldKeep volume = (markedVolumeName volume = None)"

definition shouldKeepMount :: "string list \<Rightarrow> val \<Rightarrow> bool" where
  "shouldKeepMount volumesToRemove vm =
     (case vm of
        VMapS vmMap \<Rightarrow>
          (case map_of vmMap ''name'' of
             Some (VStr name) \<Rightarrow> name \<notin> set volumesToRemove
           | _ \<Rightarrow> True)
      | _ \<Rightarrow> True)"

definition cleanContainerMounts :: "string list \<Rightarrow> val \<Rightarrow> val" where
  "cleanContainerMounts volumesToRemove container =
     (case container of
        VMapS containerMap \<Rightarrow>
          (case map_of containerMap ''volumeMounts'' of
             Some (VSlice volumeMounts) \<Rightarrow>
               (let cleanedVolumeMounts = filter (shouldKeepMount volumesToRemove) volumeMounts in
                if cleanedVolumeMounts \<noteq> []
                then VMapS (AList.update ''volumeMounts'' (VSlice cleanedVolumeMounts) containerMap)
                else VMapS (AList.delete ''volumeMounts'' containerMap))
           | _ \<Rightarrow> container)
      | _ \<Rightarrow> container)"

definition cleanMountsOf :: "string list \<Rightarrow> string \<Rightarrow> smap \<Rightarrow> smap" where
  "cleanMountsOf volumesToRemove containerType spec =
     (case map_of spec containerType of
        Some (VSlice containers) \<Rightarrow>
          AList.update containerType
            (VSlice (map (cleanContainerMounts volumesToRemove) containers)) spec
      | _ \<Rightarrow> spec)"

definition cleanPodVolumes :: "smap \<Rightarrow> smap" where
  "cleanPodVolumes spec =
     (case map_of spec ''volumes'' of
        Some (VSlice volumes) \<Rightarrow>
          (let volumesToRemove = List.map_filter markedVolumeName volumes;
               cleanedVolumes = filter shouldKeep volumes;
               spec1 = (if cleanedVolumes \<noteq> []
                        then AList.update ''volumes'' (VSlice cleanedVolumes) spec
                        else AList.delete ''volumes'' spec)
           in if volumesToRemove = [] then spec1
              else cleanMountsOf volumesToRemove ''initContainers''
                     (cleanMountsOf volumesToRemove ''containers'' spec1))
      | _ \<Rightarrow> spec)"

fun cleanedContainers :: "val list \<Rightarrow> CleanupOptions \<Rightarrow> val list" where
  "cleanedContainers [] options = []"
| "cleanedContainers (container # containers) options =
     (case container of
        VMapS containerMap \<Rightarrow>
          (let containerMap' = cleanContainerSpec containerMap options in
           if containerMap' \<noteq> [] then VMapS containerMap' # cleanedContainers containers options
           else cleanedContainers containers options)
      | _ \<Rightarrow> container # cleanedContainers containers options)"

definition cleanContainersOf :: "string \<Rightarrow> CleanupOptions \<Rightarrow> smap \<Rightarrow> smap" where
  "cleanContainersOf containerType options spec =
     (case map_of spec containerType of
        Some (VSlice containers) \<Rightarrow>
          (let cleaned = cleanedContainers containers options in
           if cleaned \<noteq> [] then AList.update containerType (VSlice cleaned) spec
           else AList.delete containerType spec)
      | _ \<Rightarrow> spec)"

definition podSpecFieldsToRemove :: "string list" where
  "podSpecFieldsToRemove =
     [''nodeName'', ''dnsPolicy'', ''schedulerName'', ''enableServiceLinks'',
      ''preemptionPolicy'', ''terminationGracePeriodSeconds'', ''hostIP'', ''podIP'',
      ''podIPs'', ''hostPID'', ''hostNetwork'', ''hostIPC'', ''hostname'', ''subdomain'',
      ''shareProcessNamespace'', ''runtimeClassName'', ''readinessGates'',
      ''setHostnameAsFQDN'']"

text \<open>The value of \<open>remove\<close> for one field when state preservation is on.\<close>

definition removeUnderPreservation :: "CleanupOptions \<Rightarrow> string \<Rightarrow> bool" where
  "removeUnderPreservation options field =
     (let fieldPath = ''spec.'' @ field in
      case resourceStateFields ''Pod'' of
        Some podStateFields \<Rightarrow>
          (case map_of podStateFields fieldPath of
             Some isDesired \<Rightarrow>
               if ResourceStateMode options = ''Desired'' \<and> isDesired then False
               else if ResourceStateMode options = ''Runtime'' \<and> \<not> isDesired then False
               else True
           | None \<Rightarrow> if ResourceStateMode options = ''Runtime'' then False else True)
      | None \<Rightarrow> if ResourceStateMode options = ''Runtime'' then False else True)"

definition cleanPodSpec :: "smap \<Rightarrow> CleanupOptions \<Rightarrow> smap" where
  "cleanPodSpec spec options =
     (let fieldsToRemove =
            (if PreserveResourceState options
             then filter (removeUnderPreservation options) podSpecFieldsToRemove
             else podSpecFieldsToRemove);
          spec1 = deleteKeys fieldsToRemove spec;
          spec2 = cleanContainersOf ''containers'' options spec1;
          spec3 = cleanContainersOf ''initContainers'' options spec2;
          spec4 = cleanPodVolumes spec3
      in case map_of spec4 ''volumes'' of
           Some (VSlice []) \<Rightarrow> AList.delete ''volumes'' spec4
         | _ \<Rightarrow> spec4)"

section \<open>Kind-specific rule sets\<close>

text \<open>
  The block on the pod template that \<open>DeploymentCleaner\<close>, \<open>StatefulSetCleaner\<close> and
  \<open>DaemonSetCleaner\<close> repeat verbatim.  When the pruner's result is neither nil nor a
  \<open>map[string]interface{}\<close> the entry keeps the map mutated in place.
\<close>

definition cleanTemplateMetadata :: "smap \<Rightarrow> smap" where
  "cleanTemplateMetadata template =
     (case map_of template ''metadata'' of
        Some (VMapS templateMeta) \<Rightarrow>
          (let templateMeta' = AList.delete ''creationTimestamp'' templateMeta in
           case removeEmptyFields (VMapS templateMeta') of
             VNil \<Rightarrow> AList.delete ''metadata'' template
           | VMapS tm \<Rightarrow> AList.update ''metadata'' (VMapS tm) template
           | _ \<Rightarrow> AList.update ''metadata'' (VMapS templateMeta') template)
      | _ \<Rightarrow> template)"

definition cleanTemplateSpec :: "smap \<Rightarrow> CleanupOptions \<Rightarrow> smap" where
  "cleanTemplateSpec template options =
     (case map_of template ''spec'' of
        Some (VMapS spec) \<Rightarrow>
          (let spec' = cleanPodSpec spec options in
           case removeEmptyFields (VMapS spec') of
             VNil \<Rightarrow> AList.delete ''spec'' template
           | VMapS sp \<Rightarrow> AList.update ''spec'' (VMapS sp) template
           | _ \<Rightarrow> AList.update ''spec'' (VMapS spec') template)
      | _ \<Rightarrow> template)"

definition cleanWorkloadTemplate :: "smap \<Rightarrow> CleanupOptions \<Rightarrow> smap" where
  "cleanWorkloadTemplate spec options =
     (case map_of spec ''template'' of
        Some (VMapS template) \<Rightarrow>
          AList.update ''template''
            (VMapS (cleanTemplateSpec (cleanTemplateMetadata template) options)) spec
      | _ \<Rightarrow> spec)"

definition preservingRuntime :: "CleanupOptions \<Rightarrow> bool" where
  "preservingRuntime options =
     (PreserveResourceState options \<and> ResourceStateMode options = ''Runtime'')"

definition preservingDesired :: "CleanupOptions \<Rightarrow> bool" where
  "preservingDesired options =
     (PreserveResourceState options \<and> ResourceStateMode options = ''Desired'')"

definition finalCleanup :: "CleanupOptions \<Rightarrow> KubernetesObject \<Rightarrow> KubernetesObject" where
  "finalCleanup options obj =
     (if RemoveEmpty options then cleanupEmptyTopLevelFields obj else obj)"

definition DeploymentCleaner_Clean ::
  "KubernetesObject \<Rightarrow> CleanupOptions \<Rightarrow> KubernetesObject" where
  "DeploymentCleaner_Clean obj0 options =
     (let obj = GenericObjectCleaner_Clean obj0 options;
          obj1 =
            (case Spec obj of
               None \<Rightarrow> obj
             | Some spec \<Rightarrow>
                 (let spec1 =
                        (if \<not> preservingRuntime options
                         then AList.delete ''progressDeadlineSeconds''
                                (AList.delete ''revisionHistoryLimit'' spec)
                         else spec)
                  in obj\<lparr>Spec := Some (cleanWorkloadTemplate spec1 options)\<rparr>))
      in finalCleanup options obj1)"

definition ServiceCleaner_Clean ::
  "KubernetesObject \<Rightarrow> CleanupOptions \<Rightarrow> KubernetesObject" where
  "ServiceCleaner_Clean obj0 options =
     (let obj = GenericObjectCleaner_Clean obj0 options;
          obj1 =
            (case Spec obj of
               None \<Rightarrow> obj
             | Some spec \<Rightarrow>
                 (let spec1 =
                        (if \<not> preservingDesired options
                         then deleteKeys
                                [''clusterIP'', ''clusterIPs'', ''ipFamilies'', ''ipFamilyPolicy'',
                                 ''internalTrafficPolicy''] spec
                         else spec)
                  in obj\<lparr>Spec := Some (cleanPortsField spec1)\<rparr>))
      in finalCleanup options obj1)"

definition StatefulSetCleaner_Clean ::
  "KubernetesObject \<Rightarrow> CleanupOptions \<Rightarrow> KubernetesObject" where
  "StatefulSetCleaner_Clean obj0 options =
     (let obj = GenericObjectCleaner_Clean obj0 options;
          obj1 =
            (case Spec obj of
               None \<Rightarrow> obj
             | Some spec \<Rightarrow>
                 (let spec1 =
                        (if \<not> preservingRuntime options
                         then AList.delete ''revisionHistoryLimit'' spec
                         else spec)
                  in obj\<lparr>Spec := Some (cleanWorkloadTemplate spec1 options)\<rparr>))
      in finalCleanup options obj1)"

definition DaemonSetCleaner_Clean ::
  "KubernetesObject \<Rightarrow> CleanupOptions \<Rightarrow> KubernetesObject" where
  "DaemonSetCleaner_Clean obj0 options =
     (let obj = GenericObjectCleaner_Clean obj0 options;
          obj1 =
            (case Spec obj of
               None \<Rightarrow> obj
             | Some spec \<Rightarrow>
                 (let spec1 =
                        (if \<not> preservingRuntime options
                         then AList.delete ''revisionHistoryLimit'' spec
                         else spec)
                  in obj\<lparr>Spec := Some (cleanWorkloadTemplate spec1 options)\<rparr>))
      in finalCleanup options obj1)"

definition cleanConfigMapData :: "smap \<Rightarrow> smap" where
  "cleanConfigMapData data =
     (let keysToDelete =
            map fst (filter (\<lambda>(key, v). key = ''kubectl.kubernetes.io/last-applied-configuration'')
                       data)
      in deleteKeys keysToDelete data)"

definition ConfigMapCleaner_Clean ::
  "KubernetesObject \<Rightarrow> CleanupOptions \<Rightarrow> KubernetesObject" where
  "ConfigMapCleaner_Clean obj0 options =
     (let obj = GenericObjectCleaner_Clean obj0 options;
          obj1 =
            (case Data obj of
               None \<Rightarrow> obj
             | Some data \<Rightarrow>
                 (let data' = cleanConfigMapData data in
                  if data' = [] then obj\<lparr>Data := None\<rparr> else obj\<lparr>Data := Some data'\<rparr>))
      in finalCleanup options obj1)"

text \<open>The Secret rule set only logs about default service-account tokens.\<close>

definition SecretCleaner_Clean ::
  "KubernetesObject \<Rightarrow> CleanupOptions \<Rightarrow> KubernetesObject" where
  "SecretCleaner_Clean obj0 options =
     (let obj = GenericObjectCleaner_Clean obj0 options;
          obj1 = (if Data obj = Some [] then obj\<lparr>Data := None\<rparr> else obj);
          obj2 = (if StringData obj1 = Some [] then obj1\<lparr>StringData := None\<rparr> else obj1)
      in finalCleanup options obj2)"

section \<open>Controller reconstructor\<close>

definition deriveBaseName :: "string \<Rightarrow> string \<Rightarrow> string option" where
  "deriveBaseName podName hash =
     (let hashSuffixPattern = ''-'' @ hash @ ''-'' in
      case strings_LastIndex podName hashSuffixPattern of
        Some index \<Rightarrow> Some (take index podName)
      | None \<Rightarrow>
          (let hashSuffix = ''-'' @ hash in
           if strings_HasSuffix podName hashSuffix
           then Some (strings_TrimSuffix podName hashSuffix)
           else None))"

text \<open>
  The only panic of the program: the unchecked type assertion \<open>originalName.(string)\<close>.
\<close>

datatype panic = InterfaceConversion

definition revertPodToDeployment :: "KubernetesObject \<Rightarrow> panic + (KubernetesObject \<times> bool)" where
  "revertPodToDeployment obj =
     (if Kind obj \<noteq> ''Pod'' then Inr (obj, False)
      else case Metadata obj of
        None \<Rightarrow> Inr (obj, False)
      | Some metadata \<Rightarrow>
          (case map_of metadata ''labels'' of
             Some (VMapS podLabels) \<Rightarrow>
               (case map_of podLabels ''pod-template-hash'' of
                  None \<Rightarrow> Inr (obj, False)
                | Some (VStr hashStr) \<Rightarrow>
                    if hashStr = [] then Inr (obj, False)
                    else
                      (case map_of metadata ''name'' of
                         Some (VStr originalName) \<Rightarrow>
                           (let deploymentName =
                                  (case deriveBaseName originalName hashStr of
                                     Some baseName \<Rightarrow> baseName
                                   | None \<Rightarrow> originalName @ ''-reverted'');
                                copied = filter (\<lambda>(k, v). k \<noteq> ''pod-template-hash'') podLabels;
                                deploymentLabels =
                                  (if copied = [] then [(''app'', VStr deploymentName)] else copied);
                                templateLabels = deploymentLabels;
                                metadata0 =
                                  [(''name'', VStr deploymentName),
                                   (''labels'', VMapS deploymentLabels)];
                                metadata1 =
                                  (case map_of metadata ''namespace'' of
                                     None \<Rightarrow> metadata0
                                   | Some VNil \<Rightarrow> metadata0
                                   | Some originalNamespace \<Rightarrow>
                                       AList.update ''namespace'' originalNamespace metadata0);
                                metadata2 = AList.delete ''generateName'' metadata1;
                                originalPodSpec = (case Spec obj of None \<Rightarrow> [] | Some sp \<Rightarrow> sp);
                                spec' =
                                  [(''replicas'', VInt 1),
                                   (''selector'', VMapS [(''matchLabels'', VMapS templateLabels)]),
                                   (''template'',
                                      VMapS [(''metadata'', VMapS [(''labels'', VMapS templateLabels)]),
                                             (''spec'', VMapS originalPodSpec)])]
                            in Inr (obj\<lparr>APIVersion := ''apps/v1'',
                                        Kind := ''Deployment'',
                                        Metadata := Some metadata2,
                                        Spec := Some spec',
                                        Status := None,
                                        Data := None,
                                        StringData := None,
                                        Type := []\<rparr>, True))
                       | _ \<Rightarrow> Inl InterfaceConversion)
                | Some other \<Rightarrow> Inr (obj, False))
           | _ \<Rightarrow> Inr (obj, False)))"

definition PodCleaner_standard :: "KubernetesObject \<Rightarrow> CleanupOptions \<Rightarrow> KubernetesObject" where
  "PodCleaner_standard obj0 options =
     (let obj = GenericObjectCleaner_Clean obj0 options;
          obj1 =
            (case Spec obj of
               None \<Rightarrow> obj
             | Some spec \<Rightarrow>
                 (let spec' = cleanPodSpec spec options in
                  case removeEmptyFields (VMapS spec') of
                    VNil \<Rightarrow> obj\<lparr>Spec := None\<rparr>
                  | VMapS sp \<Rightarrow> obj\<lparr>Spec := Some sp\<rparr>
                  | _ \<Rightarrow> obj\<lparr>Spec := Some spec'\<rparr>))
      in finalCleanup options obj1)"

definition PodCleaner_reverted :: "KubernetesObject \<Rightarrow> CleanupOptions \<Rightarrow> KubernetesObject" where
  "PodCleaner_reverted obj0 options =
     (let obj = GenericObjectCleaner_Clean obj0 options;
          obj1 =
            (case Spec obj of
               None \<Rightarrow> obj
             | Some spec \<Rightarrow>
                 (case map_of spec ''template'' of
                    Some (VMapS template) \<Rightarrow>
                      obj\<lparr>Spec := Some (AList.update ''template''
                                           (VMapS (cleanTemplateSpec template options)) spec)\<rparr>
                  | _ \<Rightarrow> obj))
      in finalCleanup options obj1)"

definition PodCleaner_Clean :: "KubernetesObject \<Rightarrow> CleanupOptions \<Rightarrow> panic + KubernetesObject" where
  "PodCleaner_Clean obj options =
     (if RevertToDeployment options then
        (case revertPodToDeployment obj of
           Inl p \<Rightarrow> Inl p
         | Inr (obj', reverted) \<Rightarrow>
             if reverted then Inr (PodCleaner_reverted obj' options)
             else Inr (PodCleaner_standard obj' options))
      else Inr (PodCleaner_standard obj options))"

section \<open>Dispatch registry and the document loop\<close>

datatype cleaner =
    Generic | DeploymentCleaner | ServiceCleaner | StatefulSetCleaner | DaemonSetCleaner
  | PodCleaner | ConfigMapCleaner | SecretCleaner

definition cleaners :: "string \<Rightarrow> cleaner option" where
  "cleaners = map_of
     [(''Generic'', Generic),
      (''Deployment'', DeploymentCleaner),
      (''Service'', ServiceCleaner),
      (''StatefulSet'', StatefulSetCleaner),
      (''DaemonSet'', DaemonSetCleaner),
      (''Pod'', PodCleaner),
      (''ConfigMap'', ConfigMapCleaner),
      (''Secret'', SecretCleaner)]"

definition GetCleaner :: "string \<Rightarrow> cleaner" where
  "GetCleaner kind =
     (if kind = [] then Generic
      else case cleaners kind of Some c \<Rightarrow> c | None \<Rightarrow> Generic)"

fun Clean :: "cleaner \<Rightarrow> KubernetesObject \<Rightarrow> CleanupOptions \<Rightarrow> panic + KubernetesObject" where
  "Clean Generic obj options = Inr (GenericObjectCleaner_Clean obj options)"
| "Clean DeploymentCleaner obj options = Inr (DeploymentCleaner_Clean obj options)"
| "Clean ServiceCleaner obj options = Inr (ServiceCleaner_Clean obj options)"
| "Clean StatefulSetCleaner obj options = Inr (StatefulSetCleaner_Clean obj options)"
| "Clean DaemonSetCleaner obj options = Inr (DaemonSetCleaner_Clean obj options)"
| "Clean PodCleaner obj options = PodCleaner_Clean obj options"
| "Clean ConfigMapCleaner obj options = Inr (ConfigMapCleaner_Clean obj options)"
| "Clean SecretCleaner obj options = Inr (SecretCleaner_Clean obj options)"

definition cleanupKubernetesObject ::
  "KubernetesObject \<Rightarrow> CleanupOptions \<Rightarrow> panic + KubernetesObject" where
  "cleanupKubernetesObject obj options =
     (if Kind obj = [] then Inr obj
      else Clean (GetCleaner (Kind obj)) obj options)"

text \<open>
  \<open>cleanupManifest\<close> over the documents the decoder yields, in order.  The result is the
  list of objects handed to the encoder, and the panic that cut the run short, if any.
  Decoding and encoding themselves are the collaborators' and are assumed to succeed.
\<close>

fun cleanupManifest ::
  "KubernetesObject list \<Rightarrow> CleanupOptions \<Rightarrow> KubernetesObject list \<times> panic option" where
  "cleanupManifest [] options = ([], None)"
| "cleanupManifest (obj # rest) options =
     (if Kind obj = [] \<and> APIVersion obj = [] then cleanupManifest rest options
      else if Kind obj = [] then cleanupManifest rest options
      else if APIVersion obj = [] then cleanupManifest rest options
      else case cleanupKubernetesObject obj options of
             Inl p \<Rightarrow> ([], Some p)
           | Inr cleaned \<Rightarrow>
               (let (written, outcome) = cleanupManifest rest options
                in (cleaned # written, outcome)))"

definition defaultOptions :: CleanupOptions where
  "defaultOptions =
     \<lparr>RemoveManagedFields = True,
      RemoveStatus = True,
      RemoveNamespace = True,
      RemoveClusterName = False,
      RemoveLabels = [],
      RemoveAnnotations = [],
      RemoveEmpty = True,
      CleanupFinalizers = True,
      RevertToDeployment = True,
      PreserveResourceState = False,
      ResourceStateMode = ''Desired''\<rparr>"

section \<open>Notions the properties are stated with\<close>

text \<open>A key of one of the top-level documents of an object; a nil map has no keys.\<close>

definition topField :: "smap option \<Rightarrow> string \<Rightarrow> val option" where
  "topField field k = (case field of None \<Rightarrow> None | Some m \<Rightarrow> map_of m k)"

text \<open>The metadata keys the cluster assigns, which the metadata rule set always deletes.\<close>

definition clusterAssigned :: "string list" where
  "clusterAssigned =
     [''creationTimestamp'', ''resourceVersion'', ''selfLink'', ''uid'', ''ownerReferences'']"

text \<open>
  The stages of \<open>GenericObjectCleaner.Clean\<close>: the object after the state-preservation
  block, and after the metadata block; and the metadata every cleaner is left with.
\<close>

definition afterStatePreservation :: "KubernetesObject \<Rightarrow> CleanupOptions \<Rightarrow> KubernetesObject" where
  "afterStatePreservation obj options =
     (if PreserveResourceState options then
        (case resourceStateFields (Kind obj) of
           Some stateFields \<Rightarrow>
             fold (\<lambda>fieldPath ob. removeField ob fieldPath)
               (fieldsToRemoveForState stateFields options) obj
         | None \<Rightarrow> obj)
      else obj)"

definition afterMetadata :: "KubernetesObject \<Rightarrow> CleanupOptions \<Rightarrow> KubernetesObject" where
  "afterMetadata ob options =
     (if Metadata ob \<noteq> None then GenericMetadataCleaner_Clean ob options else ob)"

definition afterGeneric :: "KubernetesObject \<Rightarrow> CleanupOptions \<Rightarrow> smap option" where
  "afterGeneric obj options =
     (if RemoveEmpty options then pruneTop (Metadata (GenericObjectCleaner_Clean obj options))
      else Metadata (GenericObjectCleaner_Clean obj options))"

text \<open>The two runs of the state-mode comparison: the same options but for the mode.\<close>

definition desiredMode :: "CleanupOptions \<Rightarrow> CleanupOptions" where
  "desiredMode options = options\<lparr>ResourceStateMode := ''Desired''\<rparr>"

definition runtimeMode :: "CleanupOptions \<Rightarrow> CleanupOptions" where
  "runtimeMode options = options\<lparr>ResourceStateMode := ''Runtime''\<rparr>"

text \<open>
  The path resolver's contract is stated with these: the five top-level documents by
  name, the walk through nested documents (a nested document is what the code's type
  assertion accepts, a \<open>map[string]interface{}\<close>), and the value found under a path of
  keys inside a document.
\<close>

definition topLevelDoc :: "KubernetesObject \<Rightarrow> string \<Rightarrow> smap option" where
  "topLevelDoc obj name =
     (if name = ''metadata'' then Metadata obj
      else if name = ''spec'' then Spec obj
      else if name = ''status'' then Status obj
      else if name = ''data'' then Data obj
      else if name = ''stringData'' then StringData obj
      else None)"

definition withTopLevelDoc :: "string \<Rightarrow> smap option \<Rightarrow> KubernetesObject \<Rightarrow> KubernetesObject" where
  "withTopLevelDoc name doc obj =
     (if name = ''metadata'' then obj\<lparr>Metadata := doc\<rparr>
      else if name = ''spec'' then obj\<lparr>Spec := doc\<rparr>
      else if name = ''status'' then obj\<lparr>Status := doc\<rparr>
      else if name = ''data'' then obj\<lparr>Data := doc\<rparr>
      else if name = ''stringData'' then obj\<lparr>StringData := doc\<rparr>
      else obj)"

definition docNames :: "string list" where
  "docNames = [''metadata'', ''spec'', ''status'', ''data'', ''stringData'']"

fun walkDocs :: "smap \<Rightarrow> string list \<Rightarrow> smap option" where
  "walkDocs m [] = Some m"
| "walkDocs m (segment # segments) =
     (case map_of m segment of
        Some (VMapS next) \<Rightarrow> walkDocs next segments
      | _ \<Rightarrow> None)"

fun lookupIn :: "smap \<Rightarrow> string list \<Rightarrow> val option" where
  "lookupIn m [] = None"
| "lookupIn m [key] = map_of m key"
| "lookupIn m (segment # k # ks) =
     (case map_of m segment of
        Some (VMapS next) \<Rightarrow> lookupIn next (k # ks)
      | _ \<Rightarrow> None)"

definition isPrefix :: "string list \<Rightarrow> string list \<Rightarrow> bool" where
  "isPrefix p q = (take (length p) q = p)"

definition strictPrefix :: "string list \<Rightarrow> string list \<Rightarrow> bool" where
  "strictPrefix p q = (length p < length q \<and> take (length p) q = p)"

text \<open>
  Mount-volume consistency of a pod spec.  An entry of \<open>volumes\<close>, of \<open>containers\<close>,
  of \<open>initContainers\<close> or of a \<open>volumeMounts\<close> list is read as a mapping whether it is
  string-keyed or interface-keyed, and its name is the string under \<open>name\<close>.  A mount is
  dangling when no entry of \<open>volumes\<close> has its name.  The volume rule itself reads
  string-keyed entries only: the mounts it cannot read are those of an interface-keyed
  container and the interface-keyed ones of a string-keyed container.
\<close>

definition fieldOf :: "val \<Rightarrow> string \<Rightarrow> val option" where
  "fieldOf entry key =
     (case entry of
        VMapS m \<Rightarrow> map_of m key
      | VMapI m \<Rightarrow> map_of m (KStr key)
      | _ \<Rightarrow> None)"

text \<open>
  The value a key path leads to from a value, every mapping on the way read whether it
  is string-keyed or interface-keyed.
\<close>

fun resolve :: "val \<Rightarrow> string list \<Rightarrow> val option" where
  "resolve v [] = Some v"
| "resolve v (segment # segments) =
     (case fieldOf v segment of
        None \<Rightarrow> None
      | Some nested \<Rightarrow> resolve nested segments)"

definition nameOf :: "val \<Rightarrow> string option" where
  "nameOf entry = (case fieldOf entry ''name'' of Some (VStr name) \<Rightarrow> Some name | _ \<Rightarrow> None)"

definition entriesOf :: "smap \<Rightarrow> string \<Rightarrow> val list" where
  "entriesOf spec key = (case map_of spec key of Some (VSlice entries) \<Rightarrow> entries | _ \<Rightarrow> [])"

definition volumeNames :: "smap \<Rightarrow> string list" where
  "volumeNames spec = List.map_filter nameOf (entriesOf spec ''volumes'')"

definition mountsOfContainer :: "val \<Rightarrow> val list" where
  "mountsOfContainer container =
     (case fieldOf container ''volumeMounts'' of Some (VSlice mounts) \<Rightarrow> mounts | _ \<Rightarrow> [])"

definition mountNamesOfContainer :: "val \<Rightarrow> string list" where
  "mountNamesOfContainer container = List.map_filter nameOf (mountsOfContainer container)"

definition mountNamesOf :: "string \<Rightarrow> smap \<Rightarrow> string list" where
  "mountNamesOf containerType spec =
     concat (map mountNamesOfContainer (entriesOf spec containerType))"

definition mountedNames :: "smap \<Rightarrow> string list" where
  "mountedNames spec = mountNamesOf ''containers'' spec @ mountNamesOf ''initContainers'' spec"

definition noDanglingMounts :: "smap \<Rightarrow> bool" where
  "noDanglingMounts spec = list_all (\<lambda>name. name \<in> set (volumeNames spec)) (mountedNames spec)"

definition isStringKeyed :: "val \<Rightarrow> bool" where
  "isStringKeyed entry = (case entry of VMapS m \<Rightarrow> True | _ \<Rightarrow> False)"

definition unreadNamesOfContainer :: "val \<Rightarrow> string list" where
  "unreadNamesOfContainer container =
     (if isStringKeyed container
      then List.map_filter nameOf (filter (\<lambda>mount. \<not> isStringKeyed mount) (mountsOfContainer container))
      else mountNamesOfContainer container)"

definition unreadNamesOf :: "string \<Rightarrow> smap \<Rightarrow> string list" where
  "unreadNamesOf containerType spec =
     concat (map unreadNamesOfContainer (entriesOf spec containerType))"

definition unreadMountNames :: "smap \<Rightarrow> string list" where
  "unreadMountNames spec = unreadNamesOf ''containers'' spec @ unreadNamesOf ''initContainers'' spec"

definition removedVolumeNames :: "smap \<Rightarrow> string list" where
  "removedVolumeNames spec = List.map_filter markedVolumeName (entriesOf spec ''volumes'')"

definition removedVolumesUnmounted :: "smap \<Rightarrow> bool" where
  "removedVolumesUnmounted spec =
     list_all (\<lambda>name. name \<notin> set (removedVolumeNames spec)) (unreadMountNames spec)"







text \<open>
  A value holds no empty mapping and no empty sequence, itself included; and an object
  is pruned when each of its five top-level documents is nil or such a value.
\<close>

fun noEmptyInside :: "val \<Rightarrow> bool"
  and noEmptyInsideS :: "(string \<times> val) list \<Rightarrow> bool"
  and noEmptyInsideI :: "(mkey \<times> val) list \<Rightarrow> bool"
  and noEmptyInsideL :: "val list \<Rightarrow> bool"
where
  "noEmptyInside VNil = True"
| "noEmptyInside (VStr s) = True"
| "noEmptyInside (VInt i) = True"
| "noEmptyInside (VBool b) = True"
| "noEmptyInside (VFloat f) = True"
| "noEmptyInside (VSlice xs) = (xs \<noteq> [] \<and> noEmptyInsideL xs)"
| "noEmptyInside (VMapS kvs) = (kvs \<noteq> [] \<and> noEmptyInsideS kvs)"
| "noEmptyInside (VMapI kvs) = (kvs \<noteq> [] \<and> noEmptyInsideI kvs)"
| "noEmptyInsideS [] = True"
| "noEmptyInsideS ((k, v) # kvs) = (noEmptyInside v \<and> noEmptyInsideS kvs)"
| "noEmptyInsideI [] = True"
| "noEmptyInsideI ((k, v) # kvs) = (noEmptyInside v \<and> noEmptyInsideI kvs)"
| "noEmptyInsideL [] = True"
| "noEmptyInsideL (x # xs) = (noEmptyInside x \<and> noEmptyInsideL xs)"

definition prunedField :: "smap option \<Rightarrow> bool" where
  "prunedField field = (case field of None \<Rightarrow> True | Some m \<Rightarrow> noEmptyInside (VMapS m))"

definition prunedObject :: "KubernetesObject \<Rightarrow> bool" where
  "prunedObject obj =
     (prunedField (Metadata obj) \<and> prunedField (Spec obj) \<and> prunedField (Status obj)
      \<and> prunedField (Data obj) \<and> prunedField (StringData obj))"

section \<open>Example documents\<close>

definition noKind :: KubernetesObject where
  "noKind =
     \<lparr>APIVersion = ''v1'', Kind = [], Metadata = Some [(''name'', VStr ''x'')],
      Spec = None, Status = None, Data = None, StringData = None, Type = []\<rparr>"

definition deploymentA :: KubernetesObject where
  "deploymentA =
     \<lparr>APIVersion = ''apps/v1'', Kind = ''Deployment'',
      Metadata = Some [(''name'', VStr ''web''), (''uid'', VStr ''1234''),
                       (''resourceVersion'', VStr ''42'')],
      Spec = Some [(''replicas'', VInt 1)],
      Status = Some [(''readyReplicas'', VInt 1)],
      Data = None, StringData = None, Type = []\<rparr>"

definition cleanedA :: KubernetesObject where
  "cleanedA =
     \<lparr>APIVersion = ''apps/v1'', Kind = ''Deployment'',
      Metadata = Some [(''name'', VStr ''web'')],
      Spec = Some [(''replicas'', VInt 1)],
      Status = None,
      Data = None, StringData = None, Type = []\<rparr>"

definition namelessPod :: KubernetesObject where
  "namelessPod =
     \<lparr>APIVersion = ''v1'', Kind = ''Pod'',
      Metadata = Some [(''labels'', VMapS [(''pod-template-hash'', VStr ''abc123'')])],
      Spec = Some [(''containers'', VSlice [VMapS [(''name'', VStr ''c'')]])],
      Status = None, Data = None, StringData = None, Type = []\<rparr>"

definition preserving :: CleanupOptions where
  "preserving = defaultOptions\<lparr>PreserveResourceState := True\<rparr>"

definition portTCP :: val where
  "portTCP = VMapS [(''port'', VInt 80), (''protocol'', VStr ''TCP'')]"

definition serviceA :: KubernetesObject where
  "serviceA =
     \<lparr>APIVersion = ''v1'', Kind = ''Service'',
      Metadata = Some [(''name'', VStr ''web'')],
      Spec = Some [(''clusterIP'', VStr ''10.0.0.1''), (''ports'', VSlice [portTCP])],
      Status = None, Data = None, StringData = None, Type = []\<rparr>"

definition decodedPortTCP :: val where
  "decodedPortTCP = VMapI [(KStr ''port'', VInt 80), (KStr ''protocol'', VStr ''TCP'')]"

definition decodedService :: KubernetesObject where
  "decodedService =
     \<lparr>APIVersion = ''v1'', Kind = ''Service'',
      Metadata = Some [(''name'', VStr ''web'')],
      Spec = Some [(''ports'', VSlice [decodedPortTCP])],
      Status = None, Data = None, StringData = None, Type = []\<rparr>"

definition nestedObj :: KubernetesObject where
  "nestedObj =
     \<lparr>APIVersion = ''apps/v1'', Kind = ''Deployment'',
      Metadata = Some [(''name'', VStr ''web'')],
      Spec = Some [(''replicas'', VInt 3),
                   (''template'', VMapS [(''metadata'', VMapS [(''name'', VStr ''t''),
                                                              (''labels'', VMapS [])])])],
      Status = Some [(''phase'', VStr ''Running'')],
      Data = None, StringData = None, Type = []\<rparr>"

definition decodedNested :: KubernetesObject where
  "decodedNested =
     \<lparr>APIVersion = ''apps/v1'', Kind = ''Deployment'',
      Metadata = Some [(''name'', VStr ''web'')],
      Spec = Some [(''replicas'', VInt 3),
                   (''template'',
                      VMapI [(KStr ''metadata'', VMapI [(KStr ''name'', VStr ''t'')])])],
      Status = Some [(''phase'', VStr ''Running'')],
      Data = None, StringData = None, Type = []\<rparr>"

definition danglingSpec :: smap where
  "danglingSpec =
     [(''containers'',
        VSlice [VMapI [(KStr ''name'', VStr ''app''),
                       (KStr ''volumeMounts'',
                          VSlice [VMapI [(KStr ''name'', VStr ''data''),
                                         (KStr ''mountPath'', VStr ''/data'')]])]])]"

definition mixedSpec :: smap where
  "mixedSpec =
     [(''containers'',
        VSlice [VMapI [(KStr ''name'', VStr ''app''),
                       (KStr ''volumeMounts'',
                          VSlice [VMapI [(KStr ''name'', VStr ''kube-api-access-x7k2p''),
                                         (KStr ''mountPath'', VStr ''/var/run/secrets'')]])]]),
      (''volumes'',
        VSlice [VMapS [(''name'', VStr ''kube-api-access-x7k2p''),
                       (''projected'', VMapS [(''sources'', VSlice [])])]])]"

definition podSpecA :: smap where
  "podSpecA =
     [(''nodeName'', VStr ''node-1''),
      (''containers'',
        VSlice [VMapS [(''name'', VStr ''app''),
                       (''volumeMounts'',
                          VSlice [VMapS [(''name'', VStr ''data''), (''mountPath'', VStr ''/data'')],
                                  VMapS [(''name'', VStr ''kube-api-access-x7k2p''),
                                         (''mountPath'', VStr ''/var/run/secrets'')]])]]),
      (''volumes'',
        VSlice [VMapS [(''name'', VStr ''data''), (''emptyDir'', VMapS [])],
                VMapS [(''name'', VStr ''kube-api-access-x7k2p''),
                       (''projected'', VMapS [(''sources'', VSlice [])])]])]"

definition podSpecA_cleaned :: smap where
  "podSpecA_cleaned =
     [(''containers'',
        VSlice [VMapS [(''name'', VStr ''app''),
                       (''volumeMounts'',
                          VSlice [VMapS [(''name'', VStr ''data''), (''mountPath'', VStr ''/data'')]])]]),
      (''volumes'',
        VSlice [VMapS [(''name'', VStr ''data''), (''emptyDir'', VMapS [])]])]"

definition decodedSpecA :: smap where
  "decodedSpecA =
     [(''containers'',
        VSlice [VMapI [(KStr ''name'', VStr ''app''),
                       (KStr ''volumeMounts'',
                          VSlice [VMapI [(KStr ''name'', VStr ''kube-api-access-x7k2p''),
                                         (KStr ''mountPath'', VStr ''/var/run/secrets'')]])]]),
      (''volumes'',
        VSlice [VMapI [(KStr ''name'', VStr ''kube-api-access-x7k2p''),
                       (KStr ''projected'', VMapI [(KStr ''sources'', VSlice [])])]])]"

definition widget :: KubernetesObject where
  "widget =
     \<lparr>APIVersion = ''example.com/v1'', Kind = ''Widget'',
      Metadata = Some [(''name'', VStr ''w1'')],
      Spec = Some [(''selector'', VMapS []), (''decoded'', VMapI []), (''items'', VSlice [])],
      Status = None, Data = None, StringData = None, Type = []\<rparr>"





definition decodedScenarioPod :: KubernetesObject where
  "decodedScenarioPod =
     \<lparr>APIVersion = ''v1'', Kind = ''Pod'',
      Metadata = Some [(''name'', VStr ''myapp-abc123-xk2qz''),
                       (''labels'', VMapI [(KStr ''app'', VStr ''myapp''),
                                          (KStr ''pod-template-hash'', VStr ''abc123'')])],
      Spec = Some [(''containers'', VSlice [VMapI [(KStr ''name'', VStr ''app''),
                                                   (KStr ''image'', VStr ''nginx'')]])],
      Status = None, Data = None, StringData = None, Type = []\<rparr>"

section \<open>Properties\<close>

subsection \<open>Maps and the pruner\<close>

lemma map_of_deleteKeys:
  "map_of (deleteKeys ks m) k = (if k \<in> set ks then None else map_of m k)"
  unfolding deleteKeys_def
  by (induction ks arbitrary: m) (simp_all add: AList.delete_conv')


lemma map_of_cleanedMapS_None:
  "map_of m k = None \<Longrightarrow> map_of (cleanedMapS m) k = None"
  by (induction m) (auto simp: Let_def split: if_splits)

lemma pruneTop_Some:
  "pruneTop (Some m) = (if cleanedMapS m = [] then None else Some (cleanedMapS m))"
  by (simp add: pruneTop_def Let_def)

lemma pruneTop_None [simp]: "pruneTop None = None"
  by (simp add: pruneTop_def)

lemma topField_pruneTop_None:
  "topField f k = None \<Longrightarrow> topField (pruneTop f) k = None"
  by (cases f) (simp_all add: topField_def pruneTop_Some map_of_cleanedMapS_None)

subsection \<open>C7: the pruner is idempotent\<close>

text \<open>
  C7.  For every value (a string-keyed or interface-keyed mapping, a sequence, a scalar or
  nil), pruning the pruner's result again gives the same result.
\<close>

theorem pruner_idempotent:
  "removeEmptyFields (removeEmptyFields v) = removeEmptyFields v"
proof -
  have "removeEmptyFields (removeEmptyFields v) = removeEmptyFields v"
    and "cleanedMapS (cleanedMapS kvs) = cleanedMapS kvs"
    and "cleanedMapS (cleanedMapI kvi) = cleanedMapI kvi"
    and "cleanedSlice (cleanedSlice xs) = cleanedSlice xs"
    for kvs :: "(string \<times> val) list" and kvi :: "(mkey \<times> val) list" and xs :: "val list"
  proof (induction v and kvs and kvi and xs
         rule: removeEmptyFields_cleanedMapS_cleanedMapI_cleanedSlice.induct)
    case (2 kvs)
    then show ?case by (simp add: Let_def)
  next
    case (3 kvs)
    then show ?case by (simp add: Let_def)
  next
    case (4 xs)
    then show ?case by (simp add: Let_def)
  next
    case (10 k v kvs)
    then show ?case by (auto simp: Let_def)
  next
    case (12 k v kvs)
    then show ?case by (auto simp: Let_def)
  next
    case (18 item items)
    then show ?case by (auto simp: Let_def)
  qed simp_all
  then show ?thesis by simp
qed

theorem pruner_idempotent_witness:
  "removeEmptyFields (removeEmptyFields
      (VMapS [(''a'', VMapI []), (''b'', VSlice [VNil, VStr ''x'']), (''c'', VStr [])]))
   = VMapS [(''b'', VSlice [VStr ''x'']), (''c'', VStr [])]"
  using pruner_idempotent
    [of "VMapS [(''a'', VMapI []), (''b'', VSlice [VNil, VStr ''x'']), (''c'', VStr [])]"]
  by simp

subsection \<open>C10: documents with half a header are skipped\<close>

text \<open>
  C10.  A decoded document in which exactly one of kind and apiVersion is empty is
  skipped by the document loop: the run writes, and ends, exactly as if the document had
  not been in the input, so it is neither cleaned nor handed to the encoder.
\<close>

theorem skip_partial_header:
  assumes "(Kind d = [] \<and> APIVersion d \<noteq> []) \<or> (Kind d \<noteq> [] \<and> APIVersion d = [])"
  shows "cleanupManifest (pre @ d # post) options = cleanupManifest (pre @ post) options"
  using assms by (induction pre) (auto split: sum.splits prod.splits)

theorem skip_partial_header_witness:
  "Kind noKind = [] \<and> APIVersion noKind \<noteq> [] \<and>
   cleanupManifest [noKind] defaultOptions = ([], None)"
  using skip_partial_header [of noKind "[]" "[]" defaultOptions]
  by (simp add: noKind_def)

subsection \<open>Evaluation of the model on concrete documents\<close>

lemmas model_defs =
  cleanupKubernetesObject_def GetCleaner_def cleaners_def
  DeploymentCleaner_Clean_def ServiceCleaner_Clean_def StatefulSetCleaner_Clean_def
  DaemonSetCleaner_Clean_def ConfigMapCleaner_Clean_def SecretCleaner_Clean_def
  PodCleaner_Clean_def PodCleaner_standard_def PodCleaner_reverted_def
  revertPodToDeployment_def deriveBaseName_def
  GenericObjectCleaner_Clean_def GenericMetadataCleaner_Clean_def removeEmptyFields_ptr_def
  fieldsToRemoveForState_def isFlaggedRuntime_def resourceStateFields_def
  removeField_def deleteKeys_def cleanLabels_def cleanAnnotations_def shouldDelete_def
  annotationPrefixesToRemove_def annotationExactToRemove_def
  finalCleanup_def cleanupEmptyTopLevelFields_def pruneTop_def
  cleanWorkloadTemplate_def cleanTemplateSpec_def cleanTemplateMetadata_def
  preservingRuntime_def preservingDesired_def
  cleanPodSpec_def podSpecFieldsToRemove_def removeUnderPreservation_def
  cleanContainersOf_def cleanContainerSpec_def cleanPortsField_def cleanPort_def
  cleanPodVolumes_def cleanMountsOf_def cleanContainerMounts_def shouldKeepMount_def
  shouldKeep_def markedVolumeName_def isServiceAccountToken_def isServiceAccountTokenSource_def
  cleanConfigMapData_def strings_ToUpper_def toUpperChar_def strings_HasSuffix_def
  strings_TrimSuffix_def defaultOptions_def

subsection \<open>The generic rule set, stage by stage\<close>

lemma map_of_cleanedMapS_Some:
  "map_of m k = Some v \<Longrightarrow> removeEmptyFields v \<noteq> VNil \<Longrightarrow>
   map_of (cleanedMapS m) k = Some (removeEmptyFields v)"
  by (induction m) (auto simp: Let_def split: if_splits)

lemma GenericMetadataCleaner_shape:
  "\<exists>md. GenericMetadataCleaner_Clean obj options = obj\<lparr>Metadata := md\<rparr>"
proof (cases "Metadata obj")
  case None
  then have "GenericMetadataCleaner_Clean obj options = obj\<lparr>Metadata := None\<rparr>"
    by (simp add: GenericMetadataCleaner_Clean_def)
  then show ?thesis by blast
next
  case (Some metadata)
  then show ?thesis
    unfolding GenericMetadataCleaner_Clean_def Let_def by (simp only: option.case) blast
qed

lemma GenericMetadataCleaner_others:
  "Spec (GenericMetadataCleaner_Clean obj options) = Spec obj"
  "Status (GenericMetadataCleaner_Clean obj options) = Status obj"
  "Kind (GenericMetadataCleaner_Clean obj options) = Kind obj"
  "Data (GenericMetadataCleaner_Clean obj options) = Data obj"
  "StringData (GenericMetadataCleaner_Clean obj options) = StringData obj"
  "APIVersion (GenericMetadataCleaner_Clean obj options) = APIVersion obj"
  "Type (GenericMetadataCleaner_Clean obj options) = Type obj"
  using GenericMetadataCleaner_shape [of obj options] by auto

lemma GenericMetadataCleaner_clusterAssigned:
  assumes "k \<in> set clusterAssigned"
  shows "topField (Metadata (GenericMetadataCleaner_Clean obj options)) k = None"
proof (cases "Metadata obj")
  case None
  then show ?thesis by (simp add: GenericMetadataCleaner_Clean_def topField_def)
next
  case (Some metadata)
  have k: "k \<noteq> ''annotations''" "k \<noteq> ''labels''"
    using assms by (auto simp: clusterAssigned_def)
  define fields where "fields =
     [''creationTimestamp'', ''resourceVersion'', ''selfLink'', ''uid'', ''ownerReferences'']
      @ (if \<not> (PreserveResourceState options \<and> ResourceStateMode options = ''Runtime''
                \<and> isFlaggedRuntime (Kind obj) ''metadata.generation'')
         then [''generation''] else [])
      @ (if RemoveManagedFields options then [''managedFields''] else [])
      @ (if CleanupFinalizers options then [''finalizers''] else [])
      @ (if RemoveNamespace options then [''namespace''] else [])"
  define md1 where "md1 = deleteKeys fields metadata"
  define md2 where "md2 =
     (case map_of md1 ''annotations'' of
        Some (VMapS annotations) \<Rightarrow>
          (let annotations' = cleanAnnotations annotations (RemoveAnnotations options)
           in if annotations' = [] then AList.delete ''annotations'' md1
              else AList.update ''annotations'' (VMapS annotations') md1)
      | _ \<Rightarrow> md1)"
  define md3 where "md3 =
     (case map_of md2 ''labels'' of
        Some (VMapS labels) \<Rightarrow>
          (let labels' = cleanLabels labels (RemoveLabels options)
           in if labels' = [] then AList.delete ''labels'' md2
              else AList.update ''labels'' (VMapS labels') md2)
      | _ \<Rightarrow> md2)"
  have eq: "GenericMetadataCleaner_Clean obj options = obj\<lparr>Metadata := Some md3\<rparr>"
    unfolding GenericMetadataCleaner_Clean_def md3_def md2_def md1_def fields_def Let_def
    by (simp only: Some option.case)
  have "k \<in> set fields"
    using assms unfolding fields_def clusterAssigned_def
    by (simp only: set_append Un_iff) blast
  then have 1: "map_of md1 k = None"
    by (simp add: md1_def map_of_deleteKeys)
  have 2: "map_of md2 k = None"
    unfolding md2_def using 1 k
    by (simp add: Let_def AList.update_conv' AList.delete_conv' split: option.splits val.splits)
  have 3: "map_of md3 k = None"
    unfolding md3_def using 2 k
    by (simp add: Let_def AList.update_conv' AList.delete_conv' split: option.splits val.splits)
  show ?thesis using eq 3 by (simp add: topField_def)
qed
lemma GenericObjectCleaner_stages:
  "GenericObjectCleaner_Clean obj options =
     (if RemoveStatus options
         \<and> \<not> (PreserveResourceState options \<and> ResourceStateMode options = ''Runtime''
               \<and> isFlaggedRuntime (Kind (afterMetadata (afterStatePreservation obj options) options)) ''status'')
      then (afterMetadata (afterStatePreservation obj options) options)\<lparr>Status := None\<rparr>
      else afterMetadata (afterStatePreservation obj options) options)"
  unfolding GenericObjectCleaner_Clean_def afterMetadata_def afterStatePreservation_def Let_def
  by (simp only: if_cancel)

lemma afterMetadata_others:
  "Spec (afterMetadata ob options) = Spec ob"
  "Status (afterMetadata ob options) = Status ob"
  "Kind (afterMetadata ob options) = Kind ob"
  "Data (afterMetadata ob options) = Data ob"
  "StringData (afterMetadata ob options) = StringData ob"
  "APIVersion (afterMetadata ob options) = APIVersion ob"
  "Type (afterMetadata ob options) = Type ob"
  by (simp_all add: afterMetadata_def GenericMetadataCleaner_others)

lemma afterMetadata_clusterAssigned:
  assumes "k \<in> set clusterAssigned"
  shows "topField (Metadata (afterMetadata ob options)) k = None"
  using GenericMetadataCleaner_clusterAssigned [OF assms, of ob options]
  by (simp add: afterMetadata_def topField_def)

lemma GenericObjectCleaner_Metadata:
  "Metadata (GenericObjectCleaner_Clean obj options) =
   Metadata (afterMetadata (afterStatePreservation obj options) options)"
  by (simp add: GenericObjectCleaner_stages)

lemma GenericObjectCleaner_Spec:
  "Spec (GenericObjectCleaner_Clean obj options) = Spec (afterStatePreservation obj options)"
  by (simp add: GenericObjectCleaner_stages afterMetadata_others)

lemma GenericObjectCleaner_clusterAssigned:
  assumes "k \<in> set clusterAssigned"
  shows "topField (Metadata (GenericObjectCleaner_Clean obj options)) k = None"
  by (simp add: GenericObjectCleaner_Metadata afterMetadata_clusterAssigned [OF assms])

lemma Metadata_finalCleanup:
  "Metadata (finalCleanup options obj) =
     (if RemoveEmpty options then pruneTop (Metadata obj) else Metadata obj)"
  by (simp add: finalCleanup_def cleanupEmptyTopLevelFields_def)

lemma Spec_finalCleanup:
  "Spec (finalCleanup options obj) =
     (if RemoveEmpty options then pruneTop (Spec obj) else Spec obj)"
  by (simp add: finalCleanup_def cleanupEmptyTopLevelFields_def)

lemma Status_finalCleanup:
  "Status (finalCleanup options obj) =
     (if RemoveEmpty options then pruneTop (Status obj) else Status obj)"
  by (simp add: finalCleanup_def cleanupEmptyTopLevelFields_def)

lemma Metadata_DeploymentCleaner:
  "Metadata (DeploymentCleaner_Clean obj options) = afterGeneric obj options"
  unfolding DeploymentCleaner_Clean_def Let_def afterGeneric_def
  by (cases "Spec (GenericObjectCleaner_Clean obj options)")
     (simp_all add: Metadata_finalCleanup)

lemma Metadata_ServiceCleaner:
  "Metadata (ServiceCleaner_Clean obj options) = afterGeneric obj options"
  unfolding ServiceCleaner_Clean_def Let_def afterGeneric_def
  by (cases "Spec (GenericObjectCleaner_Clean obj options)")
     (simp_all add: Metadata_finalCleanup)

lemma Metadata_StatefulSetCleaner:
  "Metadata (StatefulSetCleaner_Clean obj options) = afterGeneric obj options"
  unfolding StatefulSetCleaner_Clean_def Let_def afterGeneric_def
  by (cases "Spec (GenericObjectCleaner_Clean obj options)")
     (simp_all add: Metadata_finalCleanup)

lemma Metadata_DaemonSetCleaner:
  "Metadata (DaemonSetCleaner_Clean obj options) = afterGeneric obj options"
  unfolding DaemonSetCleaner_Clean_def Let_def afterGeneric_def
  by (cases "Spec (GenericObjectCleaner_Clean obj options)")
     (simp_all add: Metadata_finalCleanup)

lemma Metadata_ConfigMapCleaner:
  "Metadata (ConfigMapCleaner_Clean obj options) = afterGeneric obj options"
  unfolding ConfigMapCleaner_Clean_def Let_def afterGeneric_def
  by (cases "Data (GenericObjectCleaner_Clean obj options)")
     (simp_all add: Metadata_finalCleanup)

lemma Metadata_SecretCleaner:
  "Metadata (SecretCleaner_Clean obj options) = afterGeneric obj options"
  unfolding SecretCleaner_Clean_def Let_def afterGeneric_def
  by (simp add: Metadata_finalCleanup)

lemma Metadata_PodCleaner_standard:
  "Metadata (PodCleaner_standard obj options) = afterGeneric obj options"
  unfolding PodCleaner_standard_def Let_def afterGeneric_def
  by (cases "Spec (GenericObjectCleaner_Clean obj options)")
     (simp_all add: Metadata_finalCleanup split: val.splits)

lemma Metadata_PodCleaner_reverted:
  "Metadata (PodCleaner_reverted obj options) = afterGeneric obj options"
  unfolding PodCleaner_reverted_def Let_def afterGeneric_def
  by (cases "Spec (GenericObjectCleaner_Clean obj options)")
     (simp_all add: Metadata_finalCleanup split: option.splits val.splits)

lemma afterGeneric_clusterAssigned:
  assumes "k \<in> set clusterAssigned"
  shows "topField (afterGeneric obj options) k = None"
  using GenericObjectCleaner_clusterAssigned [OF assms, of obj options]
  by (simp add: afterGeneric_def topField_pruneTop_None)

lemma Clean_clusterAssigned:
  assumes "k \<in> set clusterAssigned" "Clean c obj options = Inr out"
  shows "topField (Metadata out) k = None"
proof -
  note ag = afterGeneric_clusterAssigned [OF assms(1)]
  show ?thesis
  proof (cases c)
    case Generic
    with assms(2) have "out = GenericObjectCleaner_Clean obj options" by simp
    then show ?thesis using GenericObjectCleaner_clusterAssigned [OF assms(1)] by simp
  next
    case DeploymentCleaner
    with assms(2) have "out = DeploymentCleaner_Clean obj options" by simp
    then show ?thesis using ag by (simp add: Metadata_DeploymentCleaner)
  next
    case ServiceCleaner
    with assms(2) have "out = ServiceCleaner_Clean obj options" by simp
    then show ?thesis using ag by (simp add: Metadata_ServiceCleaner)
  next
    case StatefulSetCleaner
    with assms(2) have "out = StatefulSetCleaner_Clean obj options" by simp
    then show ?thesis using ag by (simp add: Metadata_StatefulSetCleaner)
  next
    case DaemonSetCleaner
    with assms(2) have "out = DaemonSetCleaner_Clean obj options" by simp
    then show ?thesis using ag by (simp add: Metadata_DaemonSetCleaner)
  next
    case PodCleaner
    with assms(2) have "PodCleaner_Clean obj options = Inr out" by simp
    then consider ob where "out = PodCleaner_standard ob options"
      | ob where "out = PodCleaner_reverted ob options"
      unfolding PodCleaner_Clean_def
      by (cases "revertPodToDeployment obj") (auto split: if_splits prod.splits)
    then show ?thesis
    proof cases
      case 1
      then show ?thesis using ag by (simp add: Metadata_PodCleaner_standard)
    next
      case 2
      then show ?thesis using ag by (simp add: Metadata_PodCleaner_reverted)
    qed
  next
    case ConfigMapCleaner
    with assms(2) have "out = ConfigMapCleaner_Clean obj options" by simp
    then show ?thesis using ag by (simp add: Metadata_ConfigMapCleaner)
  next
    case SecretCleaner
    with assms(2) have "out = SecretCleaner_Clean obj options" by simp
    then show ?thesis using ag by (simp add: Metadata_SecretCleaner)
  qed
qed

subsection \<open>C4: cluster-assigned metadata never survives\<close>

text \<open>
  C4.  Whatever the kind and the options, a cleaned object has none of the keys
  creationTimestamp, resourceVersion, selfLink, uid, ownerReferences in its metadata:
  this holds of the result of \<open>cleanupKubernetesObject\<close> on every object that has a kind
  (without one the object is not cleaned, and the document loop never writes it), and
  of every object the document loop hands to the encoder.
\<close>

theorem cleaned_metadata_has_no_cluster_fields:
  assumes "k \<in> set clusterAssigned"
  shows "(Kind obj \<noteq> [] \<and> cleanupKubernetesObject obj options = Inr out
            \<longrightarrow> topField (Metadata out) k = None)
       \<and> (\<forall>written \<in> set (fst (cleanupManifest docs options)).
            topField (Metadata written) k = None)"
proof
  have one: "topField (Metadata cleaned) k = None"
    if "Kind d \<noteq> []" "cleanupKubernetesObject d options = Inr cleaned" for d cleaned
    using that Clean_clusterAssigned [OF assms, of "GetCleaner (Kind d)" d options cleaned]
    by (simp add: cleanupKubernetesObject_def)
  show "Kind obj \<noteq> [] \<and> cleanupKubernetesObject obj options = Inr out
            \<longrightarrow> topField (Metadata out) k = None"
    using one by blast
  show "\<forall>written \<in> set (fst (cleanupManifest docs options)).
            topField (Metadata written) k = None"
  proof (induction docs)
    case Nil
    show ?case by simp
  next
    case (Cons d docs)
    show ?case
    proof (cases "Kind d = [] \<or> APIVersion d = []")
      case True
      then show ?thesis using Cons.IH by auto
    next
      case False
      show ?thesis
      proof (cases "cleanupKubernetesObject d options")
        case (Inl p)
        then show ?thesis using False by simp
      next
        case (Inr cleaned)
        then have "topField (Metadata cleaned) k = None" using one False by blast
        then show ?thesis using False Inr Cons.IH by (simp split: prod.splits)
      qed
    qed
  qed
qed

theorem cleaned_metadata_has_no_cluster_fields_witness:
  "''uid'' \<in> set clusterAssigned \<and> topField (Metadata deploymentA) ''uid'' = Some (VStr ''1234'')
   \<and> Kind deploymentA \<noteq> [] \<and> cleanupKubernetesObject deploymentA defaultOptions = Inr cleanedA
   \<and> topField (Metadata cleanedA) ''uid'' = None"
proof -
  have ev: "cleanupKubernetesObject deploymentA defaultOptions = Inr cleanedA"
    by code_simp
  have k: "''uid'' \<in> set clusterAssigned"
    by (simp add: clusterAssigned_def)
  show ?thesis
    using cleaned_metadata_has_no_cluster_fields
            [OF k, of deploymentA defaultOptions cleanedA "[deploymentA]"] ev k
    by (simp add: deploymentA_def topField_def)
qed

subsection \<open>C9: the reconstructor panics on a Pod without a string name\<close>

text \<open>
  C9.  The controller reconstructor is not total.  For a Pod whose labels are a
  string-keyed map holding a non-empty string pod-template-hash, and whose metadata has no
  string under "name" (no such key, or a value of another type), the guard passes and the
  unchecked assertion \<open>originalName.(string)\<close> panics; with the revert option on, cleaning
  the Pod panics too.
\<close>

theorem revert_panics_without_string_name:
  assumes "Kind obj = ''Pod''"
    and "Metadata obj = Some metadata"
    and "map_of metadata ''labels'' = Some (VMapS podLabels)"
    and "map_of podLabels ''pod-template-hash'' = Some (VStr hashStr)"
    and "hashStr \<noteq> []"
    and "\<forall>name. map_of metadata ''name'' \<noteq> Some (VStr name)"
  shows "revertPodToDeployment obj = Inl InterfaceConversion
       \<and> (RevertToDeployment options \<longrightarrow>
            cleanupKubernetesObject obj options = Inl InterfaceConversion)"
proof -
  have r: "revertPodToDeployment obj = Inl InterfaceConversion"
    unfolding revertPodToDeployment_def using assms
    by (simp split: option.splits val.splits)
  have "GetCleaner (Kind obj) = PodCleaner"
    using assms(1) by (simp add: GetCleaner_def cleaners_def)
  then have "RevertToDeployment options \<Longrightarrow>
      cleanupKubernetesObject obj options = Inl InterfaceConversion"
    using r assms(1) by (simp add: cleanupKubernetesObject_def PodCleaner_Clean_def)
  with r show ?thesis by blast
qed

theorem revert_panics_without_string_name_witness:
  "revertPodToDeployment namelessPod = Inl InterfaceConversion
   \<and> cleanupKubernetesObject namelessPod defaultOptions = Inl InterfaceConversion
   \<and> fst (cleanupManifest [namelessPod] defaultOptions) = []
   \<and> snd (cleanupManifest [namelessPod] defaultOptions) = Some InterfaceConversion"
proof -
  have "revertPodToDeployment namelessPod = Inl InterfaceConversion
       \<and> (RevertToDeployment defaultOptions \<longrightarrow>
            cleanupKubernetesObject namelessPod defaultOptions = Inl InterfaceConversion)"
    by (rule revert_panics_without_string_name
          [of namelessPod "[(''labels'', VMapS [(''pod-template-hash'', VStr ''abc123'')])]"
              "[(''pod-template-hash'', VStr ''abc123'')]" "''abc123''"])
       (simp_all add: namelessPod_def)
  then show ?thesis
    by (simp add: defaultOptions_def namelessPod_def)
qed

subsection \<open>C6: the two state modes never keep both halves\<close>

lemma GenericObjectCleaner_Status:
  "Status (GenericObjectCleaner_Clean obj options) = None
   \<or> Status (GenericObjectCleaner_Clean obj options) = Status (afterStatePreservation obj options)"
  by (simp add: GenericObjectCleaner_stages afterMetadata_others)

lemma removeField_status: "removeField obj ''status'' = obj\<lparr>Status := None\<rparr>"
  by (simp add: removeField_def)

lemma afterStatePreservation_Deployment_Desired:
  assumes "Kind obj = ''Deployment''" "PreserveResourceState options"
  shows "Status (afterStatePreservation obj (desiredMode options)) = None"
  using assms
  by (simp add: afterStatePreservation_def desiredMode_def resourceStateFields_def
        fieldsToRemoveForState_def removeField_status)

lemma removeField_spec_key:
  "strings_Split_dot path = [''spec'', key] \<Longrightarrow>
   removeField obj path =
     (case Spec obj of None \<Rightarrow> obj
      | Some spec \<Rightarrow> obj\<lparr>Spec := Some (AList.delete key spec)\<rparr>)"
  by (simp add: removeField_def split: option.splits)

lemma afterStatePreservation_Deployment_Runtime:
  assumes "Kind obj = ''Deployment''" "PreserveResourceState options"
  shows "topField (Spec (afterStatePreservation obj (runtimeMode options))) ''replicas'' = None"
proof -
  have "afterStatePreservation obj (runtimeMode options) =
        removeField (removeField (removeField obj ''spec.replicas'') ''spec.strategy'') ''spec.template''"
    using assms
    by (simp add: afterStatePreservation_def runtimeMode_def resourceStateFields_def
          fieldsToRemoveForState_def)
  then show ?thesis
    by (cases "Spec obj")
       (simp_all add: removeField_spec_key topField_def AList.delete_conv')
qed

lemma map_of_cleanWorkloadTemplate:
  "k \<noteq> ''template'' \<Longrightarrow> map_of (cleanWorkloadTemplate spec options) k = map_of spec k"
  by (simp add: cleanWorkloadTemplate_def AList.update_conv' split: option.splits val.splits)

lemma Status_DeploymentCleaner:
  "Status (DeploymentCleaner_Clean obj options) =
     (if RemoveEmpty options then pruneTop (Status (GenericObjectCleaner_Clean obj options))
      else Status (GenericObjectCleaner_Clean obj options))"
  unfolding DeploymentCleaner_Clean_def Let_def
  by (cases "Spec (GenericObjectCleaner_Clean obj options)") (simp_all add: Status_finalCleanup)

lemma Spec_DeploymentCleaner_None:
  assumes "k \<noteq> ''template''" "topField (Spec (GenericObjectCleaner_Clean obj options)) k = None"
  shows "topField (Spec (DeploymentCleaner_Clean obj options)) k = None"
proof (cases "Spec (GenericObjectCleaner_Clean obj options)")
  case None
  then show ?thesis
    unfolding DeploymentCleaner_Clean_def Let_def
    by (simp add: Spec_finalCleanup topField_def)
next
  case (Some spec)
  define spec1 where "spec1 =
     (if \<not> preservingRuntime options
      then AList.delete ''progressDeadlineSeconds'' (AList.delete ''revisionHistoryLimit'' spec)
      else spec)"
  have "map_of spec k = None" using assms(2) Some by (simp add: topField_def)
  then have "map_of spec1 k = None"
    by (simp add: spec1_def AList.delete_conv')
  then have "topField (Some (cleanWorkloadTemplate spec1 options)) k = None"
    using assms(1) by (simp add: topField_def map_of_cleanWorkloadTemplate)
  then have "topField (Spec (finalCleanup options
       ((GenericObjectCleaner_Clean obj options)\<lparr>Spec := Some (cleanWorkloadTemplate spec1 options)\<rparr>))) k = None"
    by (simp add: Spec_finalCleanup topField_pruneTop_None)
  then show ?thesis
    unfolding DeploymentCleaner_Clean_def Let_def spec1_def using Some by simp
qed

text \<open>
  C6.  A Deployment cleaned with state preservation on: in Desired mode the output has no
  status, and in Runtime mode the output has no spec.replicas, whatever the other options
  are.  So the two outputs never both retain spec.replicas and status.
\<close>

theorem state_modes_exclusive:
  assumes "Kind obj = ''Deployment''" and "PreserveResourceState options"
  shows "cleanupKubernetesObject obj (desiredMode options)
           = Inr (DeploymentCleaner_Clean obj (desiredMode options))
       \<and> cleanupKubernetesObject obj (runtimeMode options)
           = Inr (DeploymentCleaner_Clean obj (runtimeMode options))
       \<and> Status (DeploymentCleaner_Clean obj (desiredMode options)) = None
       \<and> topField (Spec (DeploymentCleaner_Clean obj (runtimeMode options))) ''replicas'' = None"
proof -
  have disp: "cleanupKubernetesObject obj opts = Inr (DeploymentCleaner_Clean obj opts)" for opts
    using assms(1) by (simp add: cleanupKubernetesObject_def GetCleaner_def cleaners_def)
  have pd: "PreserveResourceState (desiredMode options)" "PreserveResourceState (runtimeMode options)"
    using assms(2) by (simp_all add: desiredMode_def runtimeMode_def)
  have "Status (GenericObjectCleaner_Clean obj (desiredMode options)) = None"
    using GenericObjectCleaner_Status [of obj "desiredMode options"]
      afterStatePreservation_Deployment_Desired [OF assms] by auto
  then have st: "Status (DeploymentCleaner_Clean obj (desiredMode options)) = None"
    by (simp add: Status_DeploymentCleaner)
  have "topField (Spec (GenericObjectCleaner_Clean obj (runtimeMode options))) ''replicas'' = None"
    using afterStatePreservation_Deployment_Runtime [OF assms]
    by (simp add: GenericObjectCleaner_Spec)
  then have sp: "topField (Spec (DeploymentCleaner_Clean obj (runtimeMode options))) ''replicas'' = None"
    by (rule Spec_DeploymentCleaner_None [rotated]) simp
  show ?thesis using disp st sp by simp
qed

theorem state_modes_exclusive_witness:
  "Kind deploymentA = ''Deployment'' \<and> PreserveResourceState preserving
   \<and> Status (DeploymentCleaner_Clean deploymentA (desiredMode preserving)) = None
   \<and> topField (Spec (DeploymentCleaner_Clean deploymentA (desiredMode preserving))) ''replicas''
        = Some (VInt 1)
   \<and> topField (Spec (DeploymentCleaner_Clean deploymentA (runtimeMode preserving))) ''replicas''
        = None
   \<and> Status (DeploymentCleaner_Clean deploymentA (runtimeMode preserving))
        = Some [(''readyReplicas'', VInt 1)]"
proof -
  have h: "Kind deploymentA = ''Deployment''" "PreserveResourceState preserving"
    by (simp_all add: deploymentA_def preserving_def defaultOptions_def)
  have d: "topField (Spec (DeploymentCleaner_Clean deploymentA (desiredMode preserving))) ''replicas''
        = Some (VInt 1)"
    by code_simp
  have r: "Status (DeploymentCleaner_Clean deploymentA (runtimeMode preserving))
        = Some [(''readyReplicas'', VInt 1)]"
    by code_simp
  show ?thesis
    using state_modes_exclusive [OF h] h d r by simp
qed

subsection \<open>C8: a decoded Service port keeps the default protocol\<close>

lemma afterStatePreservation_off:
  "\<not> PreserveResourceState options \<Longrightarrow> afterStatePreservation obj options = obj"
  by (simp add: afterStatePreservation_def)

lemma cleanedPorts_portTCP: "cleanedPorts [portTCP] = [VMapS [(''port'', VInt 80)]]"
  by (simp add: portTCP_def cleanPort_def strings_ToUpper_def toUpperChar_def)

text \<open>
  The port rule reads an entry of spec.ports only when it is a string-keyed mapping.  On
  a Service whose spec.ports is the one-entry list [{port: 80, protocol: TCP}] with such
  an entry, under the default options, the output's spec.ports is [{port: 80}].
\<close>

lemma string_keyed_port_loses_default_protocol:
  assumes "Kind obj = ''Service''"
    and "Spec obj = Some spec"
    and "map_of spec ''ports'' = Some (VSlice [portTCP])"
  shows "cleanupKubernetesObject obj defaultOptions = Inr (ServiceCleaner_Clean obj defaultOptions)
       \<and> topField (Spec (ServiceCleaner_Clean obj defaultOptions)) ''ports''
           = Some (VSlice [VMapS [(''port'', VInt 80)]])"
proof -
  have disp: "cleanupKubernetesObject obj defaultOptions = Inr (ServiceCleaner_Clean obj defaultOptions)"
    using assms(1) by (simp add: cleanupKubernetesObject_def GetCleaner_def cleaners_def)
  have g: "Spec (GenericObjectCleaner_Clean obj defaultOptions) = Some spec"
    using assms(2)
    by (simp add: GenericObjectCleaner_Spec afterStatePreservation_off defaultOptions_def)
  define spec1 where "spec1 =
     deleteKeys [''clusterIP'', ''clusterIPs'', ''ipFamilies'', ''ipFamilyPolicy'',
                 ''internalTrafficPolicy''] spec"
  have p1: "map_of spec1 ''ports'' = Some (VSlice [portTCP])"
    using assms(3) by (simp add: spec1_def map_of_deleteKeys)
  have p2: "map_of (cleanPortsField spec1) ''ports'' = Some (VSlice [VMapS [(''port'', VInt 80)]])"
    using p1
    by (simp add: cleanPortsField_def cleanedPorts_portTCP AList.update_conv'
          del: cleanedPorts.simps)
  have "map_of (cleanedMapS (cleanPortsField spec1)) ''ports''
          = Some (removeEmptyFields (VSlice [VMapS [(''port'', VInt 80)]]))"
    by (rule map_of_cleanedMapS_Some [OF p2]) simp
  then have p3: "map_of (cleanedMapS (cleanPortsField spec1)) ''ports''
          = Some (VSlice [VMapS [(''port'', VInt 80)]])"
    by simp
  then have ne: "cleanedMapS (cleanPortsField spec1) \<noteq> []" by auto
  have "Spec (ServiceCleaner_Clean obj defaultOptions) = Some (cleanedMapS (cleanPortsField spec1))"
    unfolding ServiceCleaner_Clean_def Let_def g spec1_def
    using ne [unfolded spec1_def]
    by (simp add: Spec_finalCleanup pruneTop_Some preservingDesired_def defaultOptions_def)
  then show ?thesis using disp p3 by (simp add: topField_def)
qed

lemma string_keyed_port_loses_default_protocol_example:
  "Kind serviceA = ''Service''
   \<and> map_of [(''clusterIP'', VStr ''10.0.0.1''), (''ports'', VSlice [portTCP])] ''ports''
        = Some (VSlice [portTCP])
   \<and> cleanupKubernetesObject serviceA defaultOptions
        = Inr \<lparr>APIVersion = ''v1'', Kind = ''Service'',
               Metadata = Some [(''name'', VStr ''web'')],
               Spec = Some [(''ports'', VSlice [VMapS [(''port'', VInt 80)]])],
               Status = None, Data = None, StringData = None, Type = []\<rparr>"
proof -
  have ev: "ServiceCleaner_Clean serviceA defaultOptions
        = \<lparr>APIVersion = ''v1'', Kind = ''Service'',
               Metadata = Some [(''name'', VStr ''web'')],
               Spec = Some [(''ports'', VSlice [VMapS [(''port'', VInt 80)]])],
               Status = None, Data = None, StringData = None, Type = []\<rparr>"
    by code_simp
  show ?thesis
    using string_keyed_port_loses_default_protocol
            [of serviceA "[(''clusterIP'', VStr ''10.0.0.1''), (''ports'', VSlice [portTCP])]"] ev
    by (simp add: serviceA_def)
qed

text \<open>
  C8 at a failing input.  The Service of the scenario as the decoder builds it: spec.ports
  is the one-entry list [{port: 80, protocol: TCP}] and the entry is an interface-keyed
  mapping, as every mapping below a top-level field is after decoding.  Under the default
  options the Service rule set is selected, its port rule skips the entry, and the object
  returned, which the document loop writes, has the port entry with port 80 and with
  protocol TCP still in it.  The same Service with a string-keyed entry loses protocol.
\<close>

theorem decoded_service_port_keeps_protocol:
  "GetCleaner (Kind decodedService) = ServiceCleaner
   \<and> topField (Spec decodedService) ''ports''
        = Some (VSlice [VMapI [(KStr ''port'', VInt 80), (KStr ''protocol'', VStr ''TCP'')]])
   \<and> cleanupKubernetesObject decodedService defaultOptions
        = Inr \<lparr>APIVersion = ''v1'', Kind = ''Service'',
               Metadata = Some [(''name'', VStr ''web'')],
               Spec = Some [(''ports'',
                      VSlice [VMapS [(''port'', VInt 80), (''protocol'', VStr ''TCP'')]])],
               Status = None, Data = None, StringData = None, Type = []\<rparr>
   \<and> fst (cleanupManifest [decodedService] defaultOptions)
        = [\<lparr>APIVersion = ''v1'', Kind = ''Service'',
               Metadata = Some [(''name'', VStr ''web'')],
               Spec = Some [(''ports'',
                      VSlice [VMapS [(''port'', VInt 80), (''protocol'', VStr ''TCP'')]])],
               Status = None, Data = None, StringData = None, Type = []\<rparr>]
   \<and> topField (Spec (ServiceCleaner_Clean (decodedService
          \<lparr>Spec := Some [(''ports'', VSlice [portTCP])]\<rparr>) defaultOptions)) ''ports''
        = Some (VSlice [VMapS [(''port'', VInt 80)]])"
  by code_simp

subsection \<open>C5: the path resolver walks string-keyed documents only\<close>

lemma strings_Split_dot_nonempty: "strings_Split_dot s \<noteq> []"
  by (induction s) (auto split: list.splits)

lemma deleteAtPath_Cons:
  "rest \<noteq> [] \<Longrightarrow>
   deleteAtPath m (part # rest) =
     (case map_of m part of
        Some (VMapS next) \<Rightarrow> AList.update part (VMapS (deleteAtPath next rest)) m
      | _ \<Rightarrow> m)"
  by (cases rest) (simp_all split: option.splits val.splits)

lemma deleteAtPath_noop:
  "walkDocs m pre = None \<Longrightarrow> deleteAtPath m (pre @ [final]) = m"
proof (induction pre arbitrary: m)
  case Nil
  then show ?case by simp
next
  case (Cons part pre)
  then show ?case
    by (auto simp: deleteAtPath_Cons AList.update_triv split: option.splits val.splits)
qed

lemma deleteAtPath_deletes:
  "walkDocs m pre = Some d \<Longrightarrow>
   walkDocs (deleteAtPath m (pre @ [final])) pre = Some (AList.delete final d)"
proof (induction pre arbitrary: m)
  case Nil
  then show ?case by simp
next
  case (Cons part pre)
  then show ?case
    by (auto simp: deleteAtPath_Cons AList.update_conv' split: option.splits val.splits)
qed

lemma lookupIn_cong:
  "map_of m (hd q) = map_of m' (hd q) \<Longrightarrow> lookupIn m q = lookupIn m' q"
  by (cases "(m, q)" rule: lookupIn.cases) auto

lemma lookupIn_Cons:
  "ks \<noteq> [] \<Longrightarrow>
   lookupIn m (k # ks) =
     (case map_of m k of Some (VMapS next) \<Rightarrow> lookupIn next ks | _ \<Rightarrow> None)"
  by (cases ks) (simp_all split: option.splits val.splits)

lemma deleteAtPath_frame:
  "\<not> strictPrefix q (pre @ [final]) \<Longrightarrow>
   lookupIn (deleteAtPath m (pre @ [final])) q =
     (if isPrefix (pre @ [final]) q then None else lookupIn m q)"
proof (induction pre arbitrary: q m)
  case Nil
  show ?case
  proof (cases q)
    case Nil
    then show ?thesis using Nil.prems by (simp add: strictPrefix_def)
  next
    case (Cons k ks)
    show ?thesis
    proof (cases "k = final")
      case True
      then show ?thesis using Cons
        by (cases ks) (simp_all add: isPrefix_def AList.delete_conv')
    next
      case False
      then have "lookupIn (AList.delete final m) q = lookupIn m q"
        using Cons by (intro lookupIn_cong) simp
      then show ?thesis using False Cons by (simp add: isPrefix_def)
    qed
  qed
next
  case (Cons part pre)
  have ne: "pre @ [final] \<noteq> []" by simp
  show ?case
  proof (cases q)
    case Nil
    then show ?thesis using Cons.prems by (simp add: strictPrefix_def)
  next
    case qCons: (Cons k ks)
    show ?thesis
    proof (cases "k = part")
      case False
      then have "lookupIn (deleteAtPath m (part # (pre @ [final]))) q = lookupIn m q"
        using qCons
        by (intro lookupIn_cong)
           (simp add: deleteAtPath_Cons AList.update_conv' split: option.splits val.splits)
      then show ?thesis using False qCons by (simp add: isPrefix_def)
    next
      case True
      show ?thesis
      proof (cases "ks = []")
        case True
        then show ?thesis using Cons.prems qCons \<open>k = part\<close> by (simp add: strictPrefix_def)
      next
        case False
        have nsp: "\<not> strictPrefix ks (pre @ [final])"
          using Cons.prems qCons True by (simp add: strictPrefix_def)
        have pre: "isPrefix (part # (pre @ [final])) q = isPrefix (pre @ [final]) ks"
          using qCons True by (simp add: isPrefix_def)
        have q: "q = part # ks" using qCons True by simp
        show ?thesis
        proof (cases "map_of m part")
          case None
          then show ?thesis
            unfolding q using False
            by (simp add: deleteAtPath_Cons lookupIn_Cons del: deleteAtPath.simps lookupIn.simps)
        next
          case (Some v)
          show ?thesis
          proof (cases v)
            case (VMapS nested)
            then show ?thesis
              unfolding q using Some False Cons.IH [OF nsp, of nested] pre [unfolded q]
              by (simp add: deleteAtPath_Cons lookupIn_Cons AList.update_conv'
                    del: deleteAtPath.simps lookupIn.simps)
          qed (use Some False in \<open>simp_all add: q deleteAtPath_Cons lookupIn_Cons
                    del: deleteAtPath.simps lookupIn.simps\<close>)
        qed
      qed
    qed
  qed
qed

lemma removeField_single:
  assumes "strings_Split_dot path = [name]"
  shows "removeField obj path =
           (if name \<in> set docNames then withTopLevelDoc name None obj
            else if name = ''type'' then obj\<lparr>Type := []\<rparr> else obj)"
  using assms by (simp add: removeField_def withTopLevelDoc_def docNames_def)

lemma removeField_nested:
  assumes "strings_Split_dot path = root # rest" and "rest \<noteq> []"
  shows "removeField obj path =
           (case topLevelDoc obj root of
              None \<Rightarrow> obj
            | Some m \<Rightarrow> withTopLevelDoc root (Some (deleteAtPath m rest)) obj)"
proof -
  have len: "length (root # rest) \<noteq> 1" "length (root # rest) \<noteq> 0"
    using assms(2) by (cases rest; simp)+
  show ?thesis
    unfolding removeField_def Let_def assms(1)
    using len
    by (simp add: topLevelDoc_def withTopLevelDoc_def split: option.splits)
qed

lemma withTopLevelDoc_same:
  assumes "topLevelDoc obj root = Some m"
  shows "withTopLevelDoc root (Some m) obj = obj"
proof -
  have "withTopLevelDoc root (topLevelDoc obj root) obj = obj"
    if "root \<in> set docNames"
    using that by (auto simp: docNames_def topLevelDoc_def withTopLevelDoc_def)
  moreover have "root \<in> set docNames"
  proof (rule ccontr)
    assume "root \<notin> set docNames"
    then have "topLevelDoc obj root = None"
      by (simp add: docNames_def topLevelDoc_def)
    then show False using assms by simp
  qed
  ultimately show ?thesis using assms by simp
qed

text \<open>
  What \<open>removeField\<close> does on a path split at the dots, the walk of \<open>walkDocs\<close> stepping
  through string-keyed mappings only.  One segment: the named top-level document is
  cleared (\<open>type\<close> is reset to the empty string; any other name changes nothing).
  Several segments, the first naming a top-level document: if the top-level document is
  nil, or the walk meets a missing key or a value that is not a string-keyed mapping, the
  object is returned unchanged; otherwise only the named top-level document changes, the
  mapping the walk reaches has exactly the last segment's key deleted, and every key path
  that is not a proper prefix of the addressed one holds what it held (nothing, if it
  lies at or below the deleted key).
\<close>

lemma removeField_on_string_keyed_documents:
  assumes "strings_Split_dot path = parts"
  shows "(\<forall>name. parts = [name] \<longrightarrow>
            removeField obj path =
              (if name \<in> set docNames then withTopLevelDoc name None obj
               else if name = ''type'' then obj\<lparr>Type := []\<rparr> else obj))
       \<and> (\<forall>root pre final. parts = root # pre @ [final] \<longrightarrow>
            (topLevelDoc obj root = None \<longrightarrow> removeField obj path = obj)
          \<and> (\<forall>m. topLevelDoc obj root = Some m \<longrightarrow>
                (walkDocs m pre = None \<longrightarrow> removeField obj path = obj)
              \<and> (\<forall>d. walkDocs m pre = Some d \<longrightarrow>
                    removeField obj path
                      = withTopLevelDoc root (Some (deleteAtPath m (pre @ [final]))) obj
                  \<and> walkDocs (deleteAtPath m (pre @ [final])) pre
                      = Some (AList.delete final d)
                  \<and> (\<forall>q. \<not> strictPrefix q (pre @ [final]) \<longrightarrow>
                        lookupIn (deleteAtPath m (pre @ [final])) q
                          = (if isPrefix (pre @ [final]) q then None else lookupIn m q)))))"
proof (intro conjI allI impI)
  fix name assume "parts = [name]"
  then show "removeField obj path =
              (if name \<in> set docNames then withTopLevelDoc name None obj
               else if name = ''type'' then obj\<lparr>Type := []\<rparr> else obj)"
    using assms removeField_single by simp
next
  fix root pre final
  assume p: "parts = root # pre @ [final]" and "topLevelDoc obj root = None"
  then show "removeField obj path = obj"
    using assms removeField_nested [of path root "pre @ [final]" obj] by simp
next
  fix root pre final m
  assume p: "parts = root # pre @ [final]" and m: "topLevelDoc obj root = Some m"
    and "walkDocs m pre = None"
  then show "removeField obj path = obj"
    using assms removeField_nested [of path root "pre @ [final]" obj]
    by (simp add: deleteAtPath_noop withTopLevelDoc_same)
next
  fix root pre final m d
  assume p: "parts = root # pre @ [final]" and m: "topLevelDoc obj root = Some m"
    and d: "walkDocs m pre = Some d"
  show "removeField obj path = withTopLevelDoc root (Some (deleteAtPath m (pre @ [final]))) obj"
    using assms p m removeField_nested [of path root "pre @ [final]" obj] by simp
  show "walkDocs (deleteAtPath m (pre @ [final])) pre = Some (AList.delete final d)"
    using d by (rule deleteAtPath_deletes)
  fix q assume "\<not> strictPrefix q (pre @ [final])"
  then show "lookupIn (deleteAtPath m (pre @ [final])) q
               = (if isPrefix (pre @ [final]) q then None else lookupIn m q)"
    by (rule deleteAtPath_frame)
qed

lemma removeField_on_string_keyed_documents_example:
  "strings_Split_dot ''spec.template.metadata.name'' = ''spec'' # [''template'', ''metadata''] @ [''name'']
   \<and> removeField nestedObj ''spec.template.metadata.name''
       = nestedObj\<lparr>Spec := Some [(''replicas'', VInt 3),
             (''template'', VMapS [(''metadata'', VMapS [(''labels'', VMapS [])])])]\<rparr>
   \<and> removeField nestedObj ''spec.replicas.x.y'' = nestedObj
   \<and> removeField nestedObj ''status'' = nestedObj\<lparr>Status := None\<rparr>"
proof -
  have s: "strings_Split_dot ''spec.template.metadata.name''
             = ''spec'' # [''template'', ''metadata''] @ [''name'']"
    by simp
  have 1: "removeField nestedObj ''spec.template.metadata.name''
       = nestedObj\<lparr>Spec := Some [(''replicas'', VInt 3),
             (''template'', VMapS [(''metadata'', VMapS [(''labels'', VMapS [])])])]\<rparr>"
    using removeField_on_string_keyed_documents [OF s, of nestedObj]
    by (simp add: nestedObj_def topLevelDoc_def withTopLevelDoc_def)
  have 2: "removeField nestedObj ''spec.replicas.x.y'' = nestedObj"
    by (simp add: removeField_def nestedObj_def)
  have 3: "removeField nestedObj ''status'' = nestedObj\<lparr>Status := None\<rparr>"
    by (simp add: removeField_def)
  show ?thesis using s 1 2 3 by simp
qed

text \<open>
  C5 at a failing input.  A Deployment as the decoder builds it, the mapping under
  spec.template interface-keyed, and the path spec.template.metadata: the intermediate
  segment template resolves to a nested document and that document has the key metadata,
  yet \<open>removeField\<close> returns the object unchanged and the key is still there.  The same
  holds of the longer path spec.template.metadata.name.  On the same Deployment with
  string-keyed mappings the key is deleted.
\<close>

theorem removeField_skips_decoded_document:
  "strings_Split_dot ''spec.template.metadata'' = [''spec'', ''template'', ''metadata'']
   \<and> map_option (\<lambda>spec. resolve (VMapS spec) [''template'']) (topLevelDoc decodedNested ''spec'')
        = Some (Some (VMapI [(KStr ''metadata'', VMapI [(KStr ''name'', VStr ''t'')])]))
   \<and> map_option (\<lambda>spec. resolve (VMapS spec) [''template'', ''metadata''])
         (topLevelDoc decodedNested ''spec'')
        = Some (Some (VMapI [(KStr ''name'', VStr ''t'')]))
   \<and> removeField decodedNested ''spec.template.metadata'' = decodedNested
   \<and> map_option (\<lambda>spec. resolve (VMapS spec) [''template'', ''metadata''])
         (topLevelDoc (removeField decodedNested ''spec.template.metadata'') ''spec'')
        = Some (Some (VMapI [(KStr ''name'', VStr ''t'')]))
   \<and> removeField decodedNested ''spec.template.metadata.name'' = decodedNested
   \<and> removeField nestedObj ''spec.template.metadata''
        = nestedObj\<lparr>Spec := Some [(''replicas'', VInt 3), (''template'', VMapS [])]\<rparr>"
  by code_simp

subsection \<open>C3: mounts and volumes stay consistent\<close>

lemma noDanglingMounts_iff:
  "noDanglingMounts spec \<longleftrightarrow> set (mountedNames spec) \<subseteq> set (volumeNames spec)"
  by (auto simp: noDanglingMounts_def list_all_iff)

lemma removedVolumesUnmounted_iff:
  "removedVolumesUnmounted spec \<longleftrightarrow>
     set (unreadMountNames spec) \<inter> set (removedVolumeNames spec) = {}"
  by (auto simp: removedVolumesUnmounted_def list_all_iff)

lemma entriesOf_cong:
  "map_of s' key = map_of s key \<Longrightarrow> entriesOf s' key = entriesOf s key"
  by (simp add: entriesOf_def)

lemma set_map_filter:
  "set (List.map_filter f xs) = {y. \<exists>x \<in> set xs. f x = Some y}"
  by (induction xs) (auto simp: List.map_filter_simps split: option.splits)

lemma unread_subset_mounts:
  "set (unreadNamesOfContainer c) \<subseteq> set (mountNamesOfContainer c)"
  by (auto simp: unreadNamesOfContainer_def mountNamesOfContainer_def set_map_filter)

lemma map_of_cleanPortsField:
  "k \<noteq> ''ports'' \<Longrightarrow> map_of (cleanPortsField m) k = map_of m k"
  by (simp add: cleanPortsField_def Let_def AList.update_conv' AList.delete_conv'
      split: option.splits val.splits)

lemma mounts_cleanContainerSpec:
  "mountsOfContainer (VMapS (cleanContainerSpec cm options)) = mountsOfContainer (VMapS cm)"
  by (simp add: mountsOfContainer_def fieldOf_def cleanContainerSpec_def Let_def
        map_of_cleanPortsField map_of_deleteKeys)

lemma names_cleanContainerSpec:
  "mountNamesOfContainer (VMapS (cleanContainerSpec cm options)) = mountNamesOfContainer (VMapS cm)"
  "unreadNamesOfContainer (VMapS (cleanContainerSpec cm options)) = unreadNamesOfContainer (VMapS cm)"
  by (simp_all add: mountNamesOfContainer_def unreadNamesOfContainer_def isStringKeyed_def
        mounts_cleanContainerSpec)

lemma names_cleanedContainers:
  "set (concat (map mountNamesOfContainer (cleanedContainers cs options)))
     \<subseteq> set (concat (map mountNamesOfContainer cs))"
  "set (concat (map unreadNamesOfContainer (cleanedContainers cs options)))
     \<subseteq> set (concat (map unreadNamesOfContainer cs))"
proof (induction cs)
  case Nil
  {
    case 1 show ?case by simp
  next
    case 2 show ?case by simp
  }
next
  case (Cons c cs)
  {
    case 1
    show ?case
    proof (cases c)
      case (VMapS cm)
      then show ?thesis
        using Cons(1) names_cleanContainerSpec(1) [of cm options] by (auto simp: Let_def)
    qed (use Cons(1) in auto)
  next
    case 2
    show ?case
    proof (cases c)
      case (VMapS cm)
      then show ?thesis
        using Cons(2) names_cleanContainerSpec(2) [of cm options] by (auto simp: Let_def)
    qed (use Cons(2) in auto)
  }
qed


lemma map_of_cleanContainersOf_other:
  "k \<noteq> ct \<Longrightarrow> map_of (cleanContainersOf ct options s) k = map_of s k"
  by (simp add: cleanContainersOf_def Let_def AList.update_conv' AList.delete_conv'
      split: option.splits val.splits)

lemma entriesOf_cleanContainersOf_same:
  "entriesOf (cleanContainersOf ct options s) ct = cleanedContainers (entriesOf s ct) options"
proof (cases "map_of s ct")
  case None
  then show ?thesis by (simp add: cleanContainersOf_def entriesOf_def)
next
  case (Some v)
  show ?thesis
  proof (cases v)
    case (VSlice cs)
    then show ?thesis using Some
      by (simp add: cleanContainersOf_def entriesOf_def Let_def AList.update_conv'
            AList.delete_conv')
  qed (use Some in \<open>simp_all add: cleanContainersOf_def entriesOf_def\<close>)
qed

lemma names_cleanContainersOf_same:
  "set (mountNamesOf ct (cleanContainersOf ct options s)) \<subseteq> set (mountNamesOf ct s)"
  "set (unreadNamesOf ct (cleanContainersOf ct options s)) \<subseteq> set (unreadNamesOf ct s)"
  unfolding mountNamesOf_def unreadNamesOf_def entriesOf_cleanContainersOf_same
  by (rule names_cleanedContainers)+

lemma names_cleanContainersOf_other:
  assumes "ct' \<noteq> ct"
  shows "mountNamesOf ct' (cleanContainersOf ct options s) = mountNamesOf ct' s"
    and "unreadNamesOf ct' (cleanContainersOf ct options s) = unreadNamesOf ct' s"
    and "entriesOf (cleanContainersOf ct options s) ct' = entriesOf s ct'"
proof -
  show e: "entriesOf (cleanContainersOf ct options s) ct' = entriesOf s ct'"
    by (rule entriesOf_cong) (simp add: map_of_cleanContainersOf_other assms)
  show "mountNamesOf ct' (cleanContainersOf ct options s) = mountNamesOf ct' s"
    by (simp add: mountNamesOf_def e)
  show "unreadNamesOf ct' (cleanContainersOf ct options s) = unreadNamesOf ct' s"
    by (simp add: unreadNamesOf_def e)
qed

lemma markedVolumeName_own:
  "markedVolumeName v = Some n \<Longrightarrow> nameOf v = Some n"
  by (auto simp: markedVolumeName_def nameOf_def fieldOf_def
      split: val.splits option.splits if_splits)

lemma volumes_split:
  "set (List.map_filter nameOf volumes)
     \<subseteq> set (List.map_filter nameOf (filter shouldKeep volumes))
       \<union> set (List.map_filter markedVolumeName volumes)"
proof
  fix n assume "n \<in> set (List.map_filter nameOf volumes)"
  then obtain v where v: "v \<in> set volumes" "nameOf v = Some n"
    by (auto simp: set_map_filter)
  show "n \<in> set (List.map_filter nameOf (filter shouldKeep volumes))
       \<union> set (List.map_filter markedVolumeName volumes)"
  proof (cases "markedVolumeName v")
    case None
    then have "shouldKeep v" by (simp add: shouldKeep_def)
    then show ?thesis using v by (auto simp: set_map_filter)
  next
    case (Some n')
    then have "n' = n" using markedVolumeName_own [OF Some] v(2) by simp
    then show ?thesis using v(1) Some by (auto simp: set_map_filter)
  qed
qed

text \<open>A mount the rule reads is kept exactly when its name is not among the removed ones.\<close>

lemma shouldKeepMount_read:
  "isStringKeyed m \<Longrightarrow> nameOf m = Some n \<Longrightarrow> shouldKeepMount vtr m = (n \<notin> set vtr)"
  by (auto simp: isStringKeyed_def shouldKeepMount_def nameOf_def fieldOf_def
      split: val.splits option.splits)

lemma kept_mount_names:
  assumes "set (List.map_filter nameOf (filter (\<lambda>m. \<not> isStringKeyed m) ms)) \<inter> set vtr = {}"
  shows "set (List.map_filter nameOf (filter (shouldKeepMount vtr) ms))
           \<subseteq> set (List.map_filter nameOf ms) - set vtr"
proof
  fix n assume "n \<in> set (List.map_filter nameOf (filter (shouldKeepMount vtr) ms))"
  then obtain m where m: "m \<in> set ms" "shouldKeepMount vtr m" "nameOf m = Some n"
    by (auto simp: set_map_filter)
  have "n \<notin> set vtr"
  proof (cases "isStringKeyed m")
    case True
    then show ?thesis using shouldKeepMount_read [OF True m(3), of vtr] m(2) by simp
  next
    case False
    then have "n \<in> set (List.map_filter nameOf (filter (\<lambda>m. \<not> isStringKeyed m) ms))"
      using m by (auto simp: set_map_filter)
    then show ?thesis using assms by auto
  qed
  then show "n \<in> set (List.map_filter nameOf ms) - set vtr"
    using m by (auto simp: set_map_filter)
qed

lemma mounts_cleanContainerMounts:
  assumes "set (unreadNamesOfContainer c) \<inter> set vtr = {}"
  shows "set (mountNamesOfContainer (cleanContainerMounts vtr c))
           \<subseteq> set (mountNamesOfContainer c) - set vtr"
proof (cases c)
  case (VMapS cm)
  have u: "set (List.map_filter nameOf (filter (\<lambda>m. \<not> isStringKeyed m) (mountsOfContainer c)))
             \<inter> set vtr = {}"
    using assms VMapS by (simp add: unreadNamesOfContainer_def isStringKeyed_def)
  show ?thesis
  proof (cases "map_of cm ''volumeMounts''")
    case None
    then show ?thesis using VMapS
      by (simp add: cleanContainerMounts_def mountNamesOfContainer_def mountsOfContainer_def
            fieldOf_def List.map_filter_simps)
  next
    case (Some v)
    show ?thesis
    proof (cases v)
      case (VSlice ms)
      have ms: "mountsOfContainer c = ms"
        using VMapS Some VSlice by (simp add: mountsOfContainer_def fieldOf_def)
      have k: "set (List.map_filter nameOf (filter (shouldKeepMount vtr) ms))
                 \<subseteq> set (List.map_filter nameOf ms) - set vtr"
        using u unfolding ms by (rule kept_mount_names)
      show ?thesis
      proof (cases "filter (shouldKeepMount vtr) ms = []")
        case True
        then have "mountsOfContainer (cleanContainerMounts vtr c) = []"
          using VMapS Some VSlice
          by (simp add: cleanContainerMounts_def mountsOfContainer_def fieldOf_def
                AList.delete_conv')
        then show ?thesis by (simp add: mountNamesOfContainer_def List.map_filter_simps)
      next
        case False
        then have "mountsOfContainer (cleanContainerMounts vtr c) = filter (shouldKeepMount vtr) ms"
          using VMapS Some VSlice
          by (simp add: cleanContainerMounts_def mountsOfContainer_def fieldOf_def
                AList.update_conv')
        then show ?thesis using k by (simp add: mountNamesOfContainer_def ms)
      qed
    qed (use VMapS Some in \<open>simp_all add: cleanContainerMounts_def mountNamesOfContainer_def
            mountsOfContainer_def fieldOf_def List.map_filter_simps\<close>)
  qed
next
  case (VMapI cm)
  then have "cleanContainerMounts vtr c = c" by (simp add: cleanContainerMounts_def)
  moreover have "set (mountNamesOfContainer c) \<inter> set vtr = {}"
    using assms VMapI by (simp add: unreadNamesOfContainer_def isStringKeyed_def)
  ultimately show ?thesis by auto
qed (simp_all add: cleanContainerMounts_def mountNamesOfContainer_def mountsOfContainer_def
       fieldOf_def List.map_filter_simps)

lemma map_of_cleanMountsOf_other:
  "k \<noteq> ct \<Longrightarrow> map_of (cleanMountsOf vtr ct s) k = map_of s k"
  by (simp add: cleanMountsOf_def AList.update_conv' split: option.splits val.splits)

lemma entriesOf_cleanMountsOf_same:
  "entriesOf (cleanMountsOf vtr ct s) ct = map (cleanContainerMounts vtr) (entriesOf s ct)"
proof (cases "map_of s ct")
  case None
  then show ?thesis by (simp add: cleanMountsOf_def entriesOf_def)
next
  case (Some v)
  show ?thesis
  proof (cases v)
    case (VSlice cs)
    then show ?thesis using Some
      by (simp add: cleanMountsOf_def entriesOf_def AList.update_conv')
  qed (use Some in \<open>simp_all add: cleanMountsOf_def entriesOf_def\<close>)
qed

lemma mounts_cleanMountsOf_same:
  assumes "set (unreadNamesOf ct s) \<inter> set vtr = {}"
  shows "set (mountNamesOf ct (cleanMountsOf vtr ct s)) \<subseteq> set (mountNamesOf ct s) - set vtr"
proof -
  have "set (concat (map mountNamesOfContainer (map (cleanContainerMounts vtr) cs)))
          \<subseteq> set (concat (map mountNamesOfContainer cs)) - set vtr"
    if "set (concat (map unreadNamesOfContainer cs)) \<inter> set vtr = {}" for cs
    using that
  proof (induction cs)
    case Nil
    show ?case by simp
  next
    case (Cons c cs)
    have "set (unreadNamesOfContainer c) \<inter> set vtr = {}"
      and "set (concat (map unreadNamesOfContainer cs)) \<inter> set vtr = {}"
      using Cons.prems by auto
    then show ?case
      using mounts_cleanContainerMounts [of c vtr] Cons.IH by auto
  qed
  then show ?thesis
    using assms unfolding mountNamesOf_def unreadNamesOf_def entriesOf_cleanMountsOf_same
    by simp
qed


lemma cleanPodVolumes_noDangling:
  assumes "set (mountedNames s) \<subseteq> set (volumeNames s)"
    and "set (unreadMountNames s) \<inter> set (removedVolumeNames s) = {}"
  shows "set (mountedNames (cleanPodVolumes s)) \<subseteq> set (volumeNames (cleanPodVolumes s))"
proof (cases "map_of s ''volumes''")
  case None
  then show ?thesis using assms(1) by (simp add: cleanPodVolumes_def)
next
  case (Some v)
  show ?thesis
  proof (cases v)
    case (VSlice volumes)
    define vtr where "vtr = List.map_filter markedVolumeName volumes"
    define kept where "kept = filter shouldKeep volumes"
    define s1 where "s1 = (if kept \<noteq> [] then AList.update ''volumes'' (VSlice kept) s
                           else AList.delete ''volumes'' s)"
    define s2 where "s2 = cleanMountsOf vtr ''containers'' s1"
    define s3 where "s3 = cleanMountsOf vtr ''initContainers'' s2"
    have eq: "cleanPodVolumes s = (if vtr = [] then s1 else s3)"
      using Some VSlice
      by (simp add: cleanPodVolumes_def Let_def vtr_def kept_def s1_def s2_def s3_def)
    have vols: "entriesOf s ''volumes'' = volumes"
      using Some VSlice by (simp add: entriesOf_def)
    have rem: "removedVolumeNames s = vtr"
      by (simp add: removedVolumeNames_def vols vtr_def)
    have e1v: "entriesOf s1 ''volumes'' = kept"
      by (simp add: s1_def entriesOf_def AList.update_conv' AList.delete_conv')
    have e1c: "entriesOf s1 ct = entriesOf s ct" if "ct \<noteq> ''volumes''" for ct
      by (rule entriesOf_cong) (use that in \<open>simp add: s1_def AList.update_conv' AList.delete_conv'\<close>)
    have v1: "volumeNames s1 = List.map_filter nameOf kept"
      by (simp add: volumeNames_def e1v)
    have vs: "set (volumeNames s) \<subseteq> set (volumeNames s1) \<union> set vtr"
      unfolding volumeNames_def vols e1v kept_def vtr_def by (rule volumes_split)
    have m1: "mountedNames s1 = mountedNames s"
      by (simp add: mountedNames_def mountNamesOf_def e1c)
    have u1: "unreadNamesOf ''containers'' s1 = unreadNamesOf ''containers'' s"
      "unreadNamesOf ''initContainers'' s1 = unreadNamesOf ''initContainers'' s"
      by (simp_all add: unreadNamesOf_def e1c)
    show ?thesis
    proof (cases "vtr = []")
      case True
      then show ?thesis using eq m1 vs assms(1) by auto
    next
      case False
      have uc: "set (unreadNamesOf ''containers'' s1) \<inter> set vtr = {}"
        and ui: "set (unreadNamesOf ''initContainers'' s1) \<inter> set vtr = {}"
        using assms(2) by (auto simp: unreadMountNames_def rem u1)
      have e2i: "entriesOf s2 ''initContainers'' = entriesOf s1 ''initContainers''"
        unfolding s2_def by (rule entriesOf_cong) (simp add: map_of_cleanMountsOf_other)
      have e3c: "entriesOf s3 ''containers'' = entriesOf s2 ''containers''"
        unfolding s3_def by (rule entriesOf_cong) (simp add: map_of_cleanMountsOf_other)
      have e3v: "entriesOf s3 ''volumes'' = entriesOf s1 ''volumes''"
        unfolding s3_def s2_def by (rule entriesOf_cong) (simp add: map_of_cleanMountsOf_other)
      have c: "set (mountNamesOf ''containers'' s3) \<subseteq> set (mountNamesOf ''containers'' s1) - set vtr"
        using mounts_cleanMountsOf_same [OF uc]
        by (simp add: mountNamesOf_def e3c s2_def [symmetric])
      have "set (unreadNamesOf ''initContainers'' s2) \<inter> set vtr = {}"
        using ui by (simp add: unreadNamesOf_def e2i)
      then have i: "set (mountNamesOf ''initContainers'' s3)
                      \<subseteq> set (mountNamesOf ''initContainers'' s1) - set vtr"
        using mounts_cleanMountsOf_same [of "''initContainers''" s2 vtr]
        by (simp add: mountNamesOf_def e2i s3_def [symmetric])
      have m3: "set (mountedNames s3) \<subseteq> set (mountedNames s1) - set vtr"
        using c i by (auto simp: mountedNames_def)
      have v3: "volumeNames s3 = volumeNames s1"
        by (simp add: volumeNames_def e3v)
      show ?thesis
        using False eq m3 m1 vs v3 assms(1) by auto
    qed
  qed (use Some assms(1) in \<open>simp_all add: cleanPodVolumes_def\<close>)
qed

lemma podSpecFields_keep:
  "''volumes'' \<notin> set podSpecFieldsToRemove"
  "''containers'' \<notin> set podSpecFieldsToRemove"
  "''initContainers'' \<notin> set podSpecFieldsToRemove"
  by (simp_all add: podSpecFieldsToRemove_def)

text \<open>
  The second condition of the property below holds of every pod spec that has no
  string-keyed volume entry, as every decoded pod spec (the rule then removes no volume),
  and of every pod spec whose containers and mounts are all string-keyed (the rule then
  reads every mount).
\<close>

lemma removedVolumesUnmounted_decoded:
  assumes "list_all (\<lambda>volume. \<not> isStringKeyed volume) (entriesOf spec ''volumes'')"
  shows "removedVolumesUnmounted spec"
proof -
  have "markedVolumeName volume = None" if "\<not> isStringKeyed volume" for volume
    using that by (cases volume) (simp_all add: markedVolumeName_def isStringKeyed_def)
  then have "removedVolumeNames spec = []"
    using assms
    by (auto simp: removedVolumeNames_def list_all_iff set_map_filter
             simp flip: set_empty)
  then show ?thesis by (simp add: removedVolumesUnmounted_iff)
qed

lemma removedVolumesUnmounted_string_keyed:
  assumes "list_all (\<lambda>container. isStringKeyed container
               \<and> list_all isStringKeyed (mountsOfContainer container))
             (entriesOf spec ''containers'' @ entriesOf spec ''initContainers'')"
  shows "removedVolumesUnmounted spec"
proof -
  have "unreadNamesOfContainer container = []"
    if "isStringKeyed container" "list_all isStringKeyed (mountsOfContainer container)"
    for container
  proof -
    have "filter (\<lambda>mount. \<not> isStringKeyed mount) (mountsOfContainer container) = []"
      using that(2) by (auto simp: list_all_iff filter_empty_conv)
    then show ?thesis using that(1)
      by (simp add: unreadNamesOfContainer_def List.map_filter_simps)
  qed
  then have "unreadMountNames spec = []"
    using assms by (auto simp: unreadMountNames_def unreadNamesOf_def list_all_iff)
  then show ?thesis by (simp add: removedVolumesUnmounted_iff)
qed

text \<open>
  C3, as the code has it.  The volume rule removes with a volume the mounts that name
  it, among the mounts it reads.  So if every mount of the input pod spec names a volume
  of the input's volumes list, and no mount the rule cannot read names a volume the rule
  removes, then every mount of the cleaned pod spec names a volume of the cleaned
  volumes list, for every Options.
\<close>

theorem cleanPodSpec_keeps_mounts_consistent:
  assumes "noDanglingMounts spec"
    and "removedVolumesUnmounted spec"
  shows "noDanglingMounts (cleanPodSpec spec options)"
proof -
  define fields where "fields =
     (if PreserveResourceState options
      then filter (removeUnderPreservation options) podSpecFieldsToRemove
      else podSpecFieldsToRemove)"
  define spec1 where "spec1 = deleteKeys fields spec"
  define spec2 where "spec2 = cleanContainersOf ''containers'' options spec1"
  define spec3 where "spec3 = cleanContainersOf ''initContainers'' options spec2"
  define spec4 where "spec4 = cleanPodVolumes spec3"
  have eq: "cleanPodSpec spec options =
      (case map_of spec4 ''volumes'' of
         Some (VSlice []) \<Rightarrow> AList.delete ''volumes'' spec4
       | _ \<Rightarrow> spec4)"
    unfolding cleanPodSpec_def Let_def spec4_def spec3_def spec2_def spec1_def fields_def
    by (rule refl)
  have sub: "set fields \<subseteq> set podSpecFieldsToRemove"
    by (auto simp: fields_def)
  have e1: "entriesOf spec1 k = entriesOf spec k"
    if "k \<notin> set podSpecFieldsToRemove" for k
    by (rule entriesOf_cong) (use that sub in \<open>auto simp: spec1_def map_of_deleteKeys\<close>)
  note e1k = e1 [OF podSpecFields_keep(1)] e1 [OF podSpecFields_keep(2)] e1 [OF podSpecFields_keep(3)]
  have V3: "entriesOf spec3 ''volumes'' = entriesOf spec ''volumes''"
    by (simp add: spec3_def spec2_def names_cleanContainersOf_other(3) e1k)
  have K2: "set (mountNamesOf ''containers'' spec2) \<subseteq> set (mountNamesOf ''containers'' spec)"
    and UK2: "set (unreadNamesOf ''containers'' spec2) \<subseteq> set (unreadNamesOf ''containers'' spec)"
    using names_cleanContainersOf_same [of "''containers''" options spec1]
    by (simp_all add: spec2_def mountNamesOf_def unreadNamesOf_def e1k)
  have K3: "mountNamesOf ''containers'' spec3 = mountNamesOf ''containers'' spec2"
    and UK3: "unreadNamesOf ''containers'' spec3 = unreadNamesOf ''containers'' spec2"
    by (simp_all add: spec3_def names_cleanContainersOf_other)
  have I2: "mountNamesOf ''initContainers'' spec2 = mountNamesOf ''initContainers'' spec"
    and UI2: "unreadNamesOf ''initContainers'' spec2 = unreadNamesOf ''initContainers'' spec"
    by (simp_all add: spec2_def names_cleanContainersOf_other mountNamesOf_def
          unreadNamesOf_def e1k)
  have I3: "set (mountNamesOf ''initContainers'' spec3) \<subseteq> set (mountNamesOf ''initContainers'' spec2)"
    and UI3: "set (unreadNamesOf ''initContainers'' spec3) \<subseteq> set (unreadNamesOf ''initContainers'' spec2)"
    unfolding spec3_def by (rule names_cleanContainersOf_same)+
  have M3: "set (mountedNames spec3) \<subseteq> set (mountedNames spec)"
    using K2 I3 by (auto simp: mountedNames_def K3 I2)
  have U3: "set (unreadMountNames spec3) \<subseteq> set (unreadMountNames spec)"
    using UK2 UI3 by (auto simp: unreadMountNames_def UK3 UI2)
  have a: "set (mountedNames spec3) \<subseteq> set (volumeNames spec3)"
    using assms(1) M3 by (auto simp: noDanglingMounts_iff volumeNames_def V3)
  have b: "set (unreadMountNames spec3) \<inter> set (removedVolumeNames spec3) = {}"
    using assms(2) U3 by (auto simp: removedVolumesUnmounted_iff removedVolumeNames_def V3)
  have 4: "set (mountedNames spec4) \<subseteq> set (volumeNames spec4)"
    unfolding spec4_def using a b by (rule cleanPodVolumes_noDangling)
  show ?thesis
  proof (cases "map_of spec4 ''volumes'' = Some (VSlice [])")
    case True
    then have e: "cleanPodSpec spec options = AList.delete ''volumes'' spec4"
      by (simp add: eq)
    have "volumeNames spec4 = []"
      using True by (simp add: volumeNames_def entriesOf_def List.map_filter_simps)
    moreover have "mountedNames (AList.delete ''volumes'' spec4) = mountedNames spec4"
      by (simp add: mountedNames_def mountNamesOf_def entriesOf_def AList.delete_conv')
    ultimately show ?thesis using 4 by (simp add: e noDanglingMounts_iff)
  next
    case False
    then have "cleanPodSpec spec options = spec4"
      by (simp add: eq split: option.splits val.splits list.splits)
    then show ?thesis using 4 by (simp add: noDanglingMounts_iff)
  qed
qed

text \<open>
  C3 as stated, for every input pod spec, fails twice.  A mount that names no volume of
  the input is not touched, and is still dangling in the output.  And a mount the rule
  cannot read (here in a container held as an interface-keyed mapping) survives the
  removal of the string-keyed volume it names, so a consistent input gets a dangling
  mount.
\<close>

theorem dangling_mount_survives:
  "cleanPodSpec danglingSpec defaultOptions = danglingSpec
   \<and> mountedNames (cleanPodSpec danglingSpec defaultOptions) = [''data'']
   \<and> volumeNames (cleanPodSpec danglingSpec defaultOptions) = []
   \<and> \<not> noDanglingMounts (cleanPodSpec danglingSpec defaultOptions)
   \<and> noDanglingMounts mixedSpec
   \<and> mountedNames (cleanPodSpec mixedSpec defaultOptions) = [''kube-api-access-x7k2p'']
   \<and> volumeNames (cleanPodSpec mixedSpec defaultOptions) = []
   \<and> \<not> noDanglingMounts (cleanPodSpec mixedSpec defaultOptions)"
  by code_simp

theorem cleanPodSpec_keeps_mounts_consistent_witness:
  "noDanglingMounts podSpecA \<and> removedVolumesUnmounted podSpecA
   \<and> cleanPodSpec podSpecA defaultOptions = podSpecA_cleaned
   \<and> noDanglingMounts podSpecA_cleaned
   \<and> noDanglingMounts decodedSpecA \<and> removedVolumesUnmounted decodedSpecA
   \<and> noDanglingMounts (cleanPodSpec decodedSpecA defaultOptions)"
proof -
  have a: "noDanglingMounts podSpecA" "removedVolumesUnmounted podSpecA"
    by code_simp+
  have b: "cleanPodSpec podSpecA defaultOptions = podSpecA_cleaned"
    by code_simp
  have d: "noDanglingMounts decodedSpecA" "removedVolumesUnmounted decodedSpecA"
    by code_simp+
  show ?thesis
    using cleanPodSpec_keeps_mounts_consistent [OF a, of defaultOptions]
      cleanPodSpec_keeps_mounts_consistent [OF d, of defaultOptions] a b d
    by simp
qed

subsection \<open>C2: the generic rule set does not prune\<close>

text \<open>
  C2 at a failing input.  A document of a kind with no rule set of its own, holding under
  spec an empty mapping (once string-keyed, once as the decoder builds it) and an empty
  sequence, cleaned with remove-empty on: the generic cleaner is selected and returns the
  document as it was, empty mappings and empty sequence included, and the document loop
  writes it so.  The same document under a kind with its own rule set has them pruned.
\<close>

theorem generic_rule_set_keeps_empty_containers:
  "RemoveEmpty defaultOptions
   \<and> GetCleaner (Kind widget) = Generic
   \<and> cleanupKubernetesObject widget defaultOptions = Inr widget
   \<and> fst (cleanupManifest [widget] defaultOptions) = [widget]
   \<and> Spec widget
       = Some [(''selector'', VMapS []), (''decoded'', VMapI []), (''items'', VSlice [])]
   \<and> cleanupKubernetesObject (widget\<lparr>Kind := ''ConfigMap''\<rparr>) defaultOptions
        = Inr (widget\<lparr>Kind := ''ConfigMap'', Spec := None\<rparr>)"
  by code_simp

text \<open>
  The seven rule sets with a kind of their own end with \<open>cleanupEmptyTopLevelFields\<close>, and
  with remove-empty on their output is pruned.  Only the generic rule set is not.
\<close>

lemma pruner_leaves_no_empty:
  "noEmptyInside (removeEmptyFields v)"
  "noEmptyInsideS (cleanedMapS kvs)"
  "noEmptyInsideS (cleanedMapI kvi)"
  "noEmptyInsideL (cleanedSlice xs)"
  by (induction v and kvs and kvi and xs
      rule: removeEmptyFields_cleanedMapS_cleanedMapI_cleanedSlice.induct)
     (auto simp: Let_def)

lemma prunedField_pruneTop: "prunedField (pruneTop field)"
  by (cases field) (simp_all add: prunedField_def pruneTop_Some pruner_leaves_no_empty)

lemma prunedObject_finalCleanup:
  "RemoveEmpty options \<Longrightarrow> prunedObject (finalCleanup options obj)"
  by (simp add: finalCleanup_def cleanupEmptyTopLevelFields_def prunedObject_def
        prunedField_pruneTop)

lemma specific_cleaners_prune:
  assumes "RemoveEmpty options"
  shows "prunedObject (DeploymentCleaner_Clean obj options)"
    and "prunedObject (ServiceCleaner_Clean obj options)"
    and "prunedObject (StatefulSetCleaner_Clean obj options)"
    and "prunedObject (DaemonSetCleaner_Clean obj options)"
    and "prunedObject (ConfigMapCleaner_Clean obj options)"
    and "prunedObject (SecretCleaner_Clean obj options)"
    and "prunedObject (PodCleaner_standard obj options)"
    and "prunedObject (PodCleaner_reverted obj options)"
  unfolding DeploymentCleaner_Clean_def ServiceCleaner_Clean_def StatefulSetCleaner_Clean_def
    DaemonSetCleaner_Clean_def ConfigMapCleaner_Clean_def SecretCleaner_Clean_def
    PodCleaner_standard_def PodCleaner_reverted_def Let_def
  by (rule prunedObject_finalCleanup [OF assms])+

lemma kind_specific_rule_sets_prune:
  assumes "RemoveEmpty options"
    and "GetCleaner (Kind obj) \<noteq> Generic"
    and "cleanupKubernetesObject obj options = Inr out"
  shows "prunedObject out"
proof -
  have k: "Kind obj \<noteq> []" using assms(2) by (auto simp: GetCleaner_def)
  then have c: "Clean (GetCleaner (Kind obj)) obj options = Inr out"
    using assms(3) by (simp add: cleanupKubernetesObject_def)
  note sp = specific_cleaners_prune [OF assms(1)]
  show ?thesis
  proof (cases "GetCleaner (Kind obj)")
    case Generic
    then show ?thesis using assms(2) by simp
  next
    case DeploymentCleaner
    then show ?thesis using c sp(1) by auto
  next
    case ServiceCleaner
    then show ?thesis using c sp(2) by auto
  next
    case StatefulSetCleaner
    then show ?thesis using c sp(3) by auto
  next
    case DaemonSetCleaner
    then show ?thesis using c sp(4) by auto
  next
    case PodCleaner
    then have "PodCleaner_Clean obj options = Inr out" using c by simp
    then consider ob where "out = PodCleaner_standard ob options"
      | ob where "out = PodCleaner_reverted ob options"
      unfolding PodCleaner_Clean_def
      by (cases "revertPodToDeployment obj") (auto split: if_splits prod.splits)
    then show ?thesis using sp(7,8) by cases auto
  next
    case ConfigMapCleaner
    then show ?thesis using c sp(5) by auto
  next
    case SecretCleaner
    then show ?thesis using c sp(6) by auto
  qed
qed

lemma kind_specific_rule_sets_prune_witness:
  "RemoveEmpty defaultOptions
   \<and> GetCleaner (Kind (widget\<lparr>Kind := ''ConfigMap''\<rparr>)) \<noteq> Generic
   \<and> cleanupKubernetesObject (widget\<lparr>Kind := ''ConfigMap''\<rparr>) defaultOptions
        = Inr (widget\<lparr>Kind := ''ConfigMap'', Spec := None\<rparr>)
   \<and> prunedObject (widget\<lparr>Kind := ''ConfigMap'', Spec := None\<rparr>)
   \<and> \<not> prunedObject widget"
proof -
  have a: "RemoveEmpty defaultOptions" by code_simp
  have b: "GetCleaner (Kind (widget\<lparr>Kind := ''ConfigMap''\<rparr>)) \<noteq> Generic" by code_simp
  have c: "cleanupKubernetesObject (widget\<lparr>Kind := ''ConfigMap''\<rparr>) defaultOptions
        = Inr (widget\<lparr>Kind := ''ConfigMap'', Spec := None\<rparr>)" by code_simp
  have d: "\<not> prunedObject widget" by code_simp
  show ?thesis
    using kind_specific_rule_sets_prune [OF a b c] a b c d by simp
qed

subsection \<open>C1: the reconstruction scenario\<close>










lemma lookupIn_Nil [simp]: "lookupIn [] path = None"
  by (cases "([]::smap, path)" rule: lookupIn.cases) simp_all


















text \<open>
  The label guard of the reconstructor reads metadata.labels only as a string-keyed
  mapping.  On the Pod of the scenario as the decoder builds it, labels interface-keyed,
  the guard does not pass and the document is cleaned as a Pod: its kind stays Pod and
  pod-template-hash stays among its labels.  The port rule and the path walk read
  nested mappings in the same way.
\<close>

lemma decoded_scenario_pod_is_not_reverted:
  "RevertToDeployment defaultOptions
   \<and> revertPodToDeployment decodedScenarioPod = Inr (decodedScenarioPod, False)
   \<and> cleanupKubernetesObject decodedScenarioPod defaultOptions
       = Inr \<lparr>APIVersion = ''v1'', Kind = ''Pod'',
              Metadata = Some [(''name'', VStr ''myapp-abc123-xk2qz''),
                               (''labels'', VMapS [(''app'', VStr ''myapp''),
                                                  (''pod-template-hash'', VStr ''abc123'')])],
              Spec = Some [(''containers'', VSlice [VMapS [(''name'', VStr ''app''),
                                                           (''image'', VStr ''nginx'')]])],
              Status = None, Data = None, StringData = None, Type = []\<rparr>"
  by code_simp


end
